theory Spec2Isabelle
  imports Main "HOL-Library.Word"
begin

unbundle bit_operations_syntax

section \<open>Data model of \<open>ROS::Comm\<close>\<close>

text \<open>
  The class \<open>ROS::Comm\<close> (Comm.h and its implementation file) is embedded as a record of
  its members and the socket it owns, and every member function as a HOL function that
  takes the record and returns the updated one. A C++ \<open>throw\<close> is the left injection of a
  sum, carrying the state at the moment of the throw; so is the end of a run in a use of
  the heap that C++ leaves undefined.

  \<^item> \<open>char\<close> and \<open>md5_byte_t\<close> are \<open>8 word\<close>, \<open>int\<close> is \<open>32 word\<close>; comparisons of \<open>int\<close>
    values are the signed ones (\<open><s\<close>, \<open>\<le>s\<close>).
  \<^item> \<open>QString\<close> is a \<open>string\<close> of Latin-1 characters, so \<open>toLatin1\<close> maps every character to
    the byte of its code; \<open>QByteArray\<close> is a list of bytes.
  \<^item> \<open>Q_BYTE_ORDER\<close> is a compile-time constant of the build: it is the first argument of
    every function whose text depends on it.
\<close>

type_synonym byte = "8 word"
type_synonym cint = "32 word"
type_synonym QString = string
type_synonym QByteArray = "byte list"

datatype byte_order = Q_LITTLE_ENDIAN | Q_BIG_ENDIAN

datatype SocketState =
  UnconnectedState | HostLookupState | ConnectingState | ConnectedState
  | BoundState | ListeningState | ClosingState

datatype CommState = Unconnected | HostLookup | Connecting | Connected | Closing

datatype LoginState = NoLoged | LoginRequested | UserPassSended | LogedIn

text \<open>
  Modelled from the spec: the sentence collaborator (QSentences.h is not among the
  sources). The spec gives it a command word, three word groups, a tag, a result type
  (``Done'' versus anything else) and a lookup of an attribute by name. A word group is
  represented by what the two accessors used by \<open>Comm\<close> return: the words of \<open>toWords()\<close>
  and the name/value entries behind \<open>count()\<close> and \<open>attribute(name)\<close>.
\<close>

datatype ResultType = Done | NotDone

record QBasicAttrib =
  toWords :: "QString list"
  entries :: "(QString \<times> QString) list"

definition count_attr :: "QBasicAttrib \<Rightarrow> int" where
  "count_attr a = int (length (entries a))"

definition attribute :: "QBasicAttrib \<Rightarrow> QString \<Rightarrow> QString" where
  "attribute a name = (case map_of (entries a) name of None \<Rightarrow> [] | Some v \<Rightarrow> v)"

record QSentence =
  command :: QString
  attributes :: QBasicAttrib
  APIattributes :: QBasicAttrib
  queries :: QBasicAttrib
  tag :: QString
  getResultType :: ResultType

text \<open>The signals of \<open>Comm\<close>; \<open>emit\<close> appends to the trace \<open>emitted\<close>.\<close>

datatype event =
  comError QString
  | loginRequest
  | comReceive QSentence
  | comStateChanged CommState
  | loginStateChanged LoginState

text \<open>
  The ways a call ends without returning: the three \<open>throw\<close> statements of the
  implementation, and a use of a heap block that is not allocated. The latter is undefined
  behaviour in C++; the embedding ends the run there, as the C library does when it
  detects a block freed twice and aborts the process.
\<close>

datatype error =
  WordTooLong            \<comment> \<open>\<open>throw "Word too long"\<close>\<close>
  | IncompleteWordLength \<comment> \<open>\<open>throw "Incomplete word length arrived."\<close>\<close>
  | AlreadyLogedIn       \<comment> \<open>\<open>throw "router is loged already in"\<close>\<close>
  | HeapFault            \<comment> \<open>a read or a free of a block that is not allocated\<close>

text \<open>
  The members of \<open>Comm\<close>. The socket \<open>m_sock\<close> is represented by its state, the bytes it
  has buffered for reading (\<open>sock_in\<close>) and the bytes written to it (\<open>sock_out\<close>). \<open>ID\<close> is
  the function-local \<open>static int ID\<close> of \<open>sendSentence\<close>.
\<close>

record Comm =
  sock_state :: SocketState
  sock_in :: "byte list"
  sock_out :: "byte list"
  m_Username :: QString
  m_Password :: QString
  incomingWord :: QByteArray
  incomingSentence :: QSentence
  sentenceCompleted :: bool
  m_loginState :: LoginState
  incomingWordSize :: cint
  ID :: cint
  emitted :: "event list"

type_synonym 'a result = "(error \<times> Comm) + ('a \<times> Comm)"

text \<open>
  What the build, the absent collaborators and the application contribute: the byte
  order, the MD5 digest of a byte sequence (QMD5.h is not among the sources),
  \<open>QSentence::addWord\<close> and \<open>QSentence::clear\<close>, and what the slots that the application
  connects to \<open>loginRequest(QString *user, QString *pass)\<close> leave in the two strings they
  are given pointers to.
\<close>

record env =
  Q_BYTE_ORDER :: byte_order
  md5_digest :: "byte list \<Rightarrow> byte list"
  addWord :: "QSentence \<Rightarrow> QByteArray \<Rightarrow> QSentence"
  clear :: "QSentence \<Rightarrow> QSentence"
  loginRequest_slots :: "QString \<times> QString \<Rightarrow> QString \<times> QString"

definition seq :: "'a result \<Rightarrow> ('a \<Rightarrow> Comm \<Rightarrow> 'b result) \<Rightarrow> 'b result" where
  "seq r f = (case r of Inl e \<Rightarrow> Inl e | Inr (x, s) \<Rightarrow> f x s)"

definition emit :: "event \<Rightarrow> Comm \<Rightarrow> Comm" where
  "emit e s = s\<lparr>emitted := emitted s @ [e]\<rparr>"

definition toLatin1 :: "QString \<Rightarrow> QByteArray" where
  "toLatin1 w = map (\<lambda>c. of_nat (of_char c)) w"

subsection \<open>The socket\<close>

text \<open>
  \<open>m_sock.read(&c, 1)\<close> returns 0 when nothing is buffered, \<open>m_sock.read(n)\<close> returns at
  most \<open>n\<close> buffered bytes, \<open>m_sock.write\<close> appends to the output. \<open>abort()\<close> and \<open>close()\<close>
  leave the socket unconnected and drop what it had buffered for reading;
  \<open>disconnectFromHost()\<close> starts the graceful shutdown.

  The socket is the Qt library's, so these six functions state what the embedding takes
  from it, and no more:
  \<^item> a read never fails (a \<open>read\<close> that returns \<open>-1\<close> is not represented);
  \<^item> bytes written count as sent, so that \<open>close()\<close> finds nothing pending and ends in
    \<open>UnconnectedState\<close>;
  \<^item> the six functions do not call the slots \<open>onError\<close> and \<open>onSocketStateChanges\<close>,
    which the socket calls when it reports an error or changes its state. On the states
    a closing socket enters, \<open>onSocketStateChanges\<close> (embedded below as a function of its
    own) only emits \<open>comStateChanged\<close> and writes no member, so \<open>emitted\<close> lists the signals
    emitted by the statements of the embedded functions, without the \<open>comStateChanged\<close>
    that the slot adds while \<open>abort()\<close>, \<open>close()\<close> or \<open>disconnectFromHost()\<close> runs.
\<close>

definition sock_read1 :: "Comm \<Rightarrow> byte option \<times> Comm" where
  "sock_read1 s = (case sock_in s of [] \<Rightarrow> (None, s) | b # bs \<Rightarrow> (Some b, s\<lparr>sock_in := bs\<rparr>))"

definition sock_read :: "nat \<Rightarrow> Comm \<Rightarrow> QByteArray \<times> Comm" where
  "sock_read n s = (take n (sock_in s), s\<lparr>sock_in := drop n (sock_in s)\<rparr>)"

definition sock_write :: "QByteArray \<Rightarrow> Comm \<Rightarrow> Comm" where
  "sock_write bs s = s\<lparr>sock_out := sock_out s @ bs\<rparr>"

definition sock_abort :: "Comm \<Rightarrow> Comm" where
  "sock_abort s = s\<lparr>sock_state := UnconnectedState, sock_in := []\<rparr>"

definition sock_close :: "Comm \<Rightarrow> Comm" where
  "sock_close s = s\<lparr>sock_state := UnconnectedState, sock_in := []\<rparr>"

definition sock_disconnectFromHost :: "Comm \<Rightarrow> Comm" where
  "sock_disconnectFromHost s = s\<lparr>sock_state := ClosingState\<rparr>"

section \<open>The length codec\<close>

text \<open>
  \<open>lengthData = (char *)&wordLength\<close> views the four bytes of an \<open>int\<close> in memory order:
  least significant byte first on a little-endian host, last on a big-endian one.
  \<open>bytes_int\<close> is the converse view \<open>*(int *)lengthData\<close>.
\<close>

definition int_bytes :: "byte_order \<Rightarrow> cint \<Rightarrow> byte list" where
  "int_bytes bo w =
     (let le = [ucast w, ucast (drop_bit 8 w), ucast (drop_bit 16 w), ucast (drop_bit 24 w)]
      in if bo = Q_LITTLE_ENDIAN then le else rev le)"

definition bytes_int :: "byte_order \<Rightarrow> byte list \<Rightarrow> cint" where
  "bytes_int bo bs =
     (let le = (if bo = Q_LITTLE_ENDIAN then bs else rev bs)
      in ucast (le ! 0) OR push_bit 8 (ucast (le ! 1)) OR push_bit 16 (ucast (le ! 2))
           OR push_bit 24 (ucast (le ! 3)))"

definition writeLength :: "byte_order \<Rightarrow> cint \<Rightarrow> Comm \<Rightarrow> unit result" where
  "writeLength bo wordLength s =
     (let lengthData = int_bytes bo wordLength in
      if wordLength <s 0x80 then
        Inr ((), sock_write [lengthData ! 0] s)
      else if wordLength <s 0x4000 then
        Inr ((), sock_write
          (if bo = Q_LITTLE_ENDIAN then [lengthData ! 1 OR 0x80, lengthData ! 0]
           else [lengthData ! 2 OR 0x80, lengthData ! 3]) s)
      else if wordLength <s 0x200000 then
        Inr ((), sock_write
          (if bo = Q_LITTLE_ENDIAN then [lengthData ! 2 OR 0xc0, lengthData ! 1, lengthData ! 0]
           else [lengthData ! 1 OR 0xc0, lengthData ! 2, lengthData ! 3]) s)
      else if wordLength <s 0x10000000 then
        Inr ((), sock_write
          (if bo = Q_LITTLE_ENDIAN
           then [lengthData ! 3 OR 0xe0, lengthData ! 2, lengthData ! 1, lengthData ! 0]
           else [lengthData ! 0 OR 0xe0, lengthData ! 1, lengthData ! 2, lengthData ! 3]) s)
      else Inl (WordTooLong, s))"

text \<open>
  The heap of \<open>readLength\<close>. The function allocates at most two blocks: the four zeroed
  bytes of \<open>calloc(sizeof(int), 1)\<close>, which \<open>lengthData\<close> points to, and, in the one-byte
  branch only, the \<open>int\<close> of \<open>malloc(sizeof(int))\<close>. The heap maps a block that is allocated
  to the bytes it holds. \<open>delete\<close> and \<open>delete []\<close> of these blocks are taken as \<open>free\<close> (what
  the default operators do): \<open>free_block\<close> releases an allocated block and fails on one that
  is not allocated.
\<close>

datatype block =
  LengthData       \<comment> \<open>the block of \<open>calloc(sizeof(int), 1)\<close>\<close>
  | MessageLength  \<comment> \<open>the block of \<open>malloc(sizeof(int))\<close>\<close>

type_synonym heap = "block \<rightharpoonup> byte list"

definition free_block :: "block \<Rightarrow> heap \<Rightarrow> heap option" where
  "free_block p h = (case h p of None \<Rightarrow> None | Some bytes \<Rightarrow> Some (h(p := None)))"

text \<open>
  \<open>readLength\<close> up to the point where \<open>messageLength\<close> is set. \<open>lengthData\<close> holds the bytes
  of the \<open>calloc\<close>ed block; \<open>ix\<close> lists, in the order the bytes arrive, the positions the
  selected branch of the byte-order conditional stores them at. The tests on \<open>firstChar\<close>
  are made after the promotion of \<open>char\<close> (signed) to \<open>int\<close>. The result is either the value
  of an early \<open>return\<close> (\<open>-1\<close> to \<open>-4\<close>, which report which read found the socket empty; the
  block is left allocated and is never referred to again), or the pointer \<open>messageLength\<close>
  together with the heap: in the three multi-byte branches
  \<open>messageLength = (int *)lengthData\<close> points into the \<open>calloc\<close>ed block, in the one-byte
  branch it points to a block of its own that holds \<open>(int)firstChar\<close>.
\<close>

definition readLength_prefix :: "byte_order \<Rightarrow> Comm \<Rightarrow> (cint + block \<times> heap) \<times> Comm" where
  "readLength_prefix bo s =
     (case sock_read1 s of
        (None, s0) \<Rightarrow> (Inl (- 1), s0)
      | (Some firstChar, s1) \<Rightarrow>
          if (scast firstChar :: cint) AND 0xE0 = 0xE0 then
            (let ix = (if bo = Q_LITTLE_ENDIAN then [3, 2, 1, 0] else [0, 1, 2, 3::nat]);
                 lengthData = [0, 0, 0, 0][ix ! 0 := firstChar AND 0x1f]
             in case sock_read1 s1 of
                  (None, s2) \<Rightarrow> (Inl (- 2), s2)
                | (Some b2, s2) \<Rightarrow>
                   (case sock_read1 s2 of
                      (None, s3) \<Rightarrow> (Inl (- 3), s3)
                    | (Some b3, s3) \<Rightarrow>
                       (case sock_read1 s3 of
                          (None, s4) \<Rightarrow> (Inl (- 4), s4)
                        | (Some b4, s4) \<Rightarrow>
                            (Inr (LengthData,
                                  [LengthData \<mapsto>
                                     lengthData[ix ! 1 := b2, ix ! 2 := b3, ix ! 3 := b4]]),
                             s4))))
          else if (scast firstChar :: cint) AND 0xC0 = 0xC0 then
            (let ix = (if bo = Q_LITTLE_ENDIAN then [2, 1, 0] else [1, 2, 3::nat]);
                 lengthData = [0, 0, 0, 0][ix ! 0 := firstChar AND 0x3f]
             in case sock_read1 s1 of
                  (None, s2) \<Rightarrow> (Inl (- 2), s2)
                | (Some b2, s2) \<Rightarrow>
                   (case sock_read1 s2 of
                      (None, s3) \<Rightarrow> (Inl (- 3), s3)
                    | (Some b3, s3) \<Rightarrow>
                        (Inr (LengthData,
                              [LengthData \<mapsto> lengthData[ix ! 1 := b2, ix ! 2 := b3]]),
                         s3)))
          else if (scast firstChar :: cint) AND 0x80 = 0x80 then
            (let ix = (if bo = Q_LITTLE_ENDIAN then [1, 0] else [2, 3::nat]);
                 lengthData = [0, 0, 0, 0][ix ! 0 := firstChar AND 0x7f]
             in case sock_read1 s1 of
                  (None, s2) \<Rightarrow> (Inl (- 2), s2)
                | (Some b2, s2) \<Rightarrow>
                    (Inr (LengthData, [LengthData \<mapsto> lengthData[ix ! 1 := b2]]), s2))
          else
            (Inr (MessageLength,
                  [LengthData \<mapsto> [0, 0, 0, 0],
                   MessageLength \<mapsto> int_bytes bo (scast firstChar)]),
             s1))"

text \<open>
  \<open>readLength\<close>: after the branches, \<open>int retMessageLength = *messageLength\<close> reads the \<open>int\<close>
  that \<open>messageLength\<close> points to, \<open>delete messageLength\<close> and \<open>delete [] lengthData\<close> free
  the two pointers, and the value read is returned. Where \<open>messageLength\<close> points into the
  block of \<open>lengthData\<close>, the second \<open>delete\<close> frees a block that the first has freed.
\<close>

definition readLength :: "byte_order \<Rightarrow> Comm \<Rightarrow> cint result" where
  "readLength bo s =
     (case readLength_prefix bo s of
        (Inl n, s1) \<Rightarrow> Inr (n, s1)
      | (Inr (messageLength, h), s1) \<Rightarrow>
          (case h messageLength of
             None \<Rightarrow> Inl (HeapFault, s1)
           | Some bytes \<Rightarrow>
               (let retMessageLength = bytes_int bo bytes in
                case free_block messageLength h of
                  None \<Rightarrow> Inl (HeapFault, s1)
                | Some h1 \<Rightarrow>
                    (case free_block LengthData h1 of
                       None \<Rightarrow> Inl (HeapFault, s1)
                     | Some h2 \<Rightarrow> Inr (retMessageLength, s1)))))"

section \<open>Words and sentences\<close>

definition sendWord :: "byte_order \<Rightarrow> QString \<Rightarrow> Comm \<Rightarrow> unit result" where
  "sendWord bo word s =
     seq (writeLength bo (of_nat (length word)) s)
         (\<lambda>_ s1. Inr ((), sock_write (toLatin1 word) s1))"

text \<open>
  The second half of \<open>readWord\<close>: read at most \<open>incomingWordSize\<close> buffered bytes, append
  them to \<open>incomingWord\<close>, and report 1 when the word is complete and -1 otherwise.
\<close>

definition readWord_payload :: "Comm \<Rightarrow> cint result" where
  "readWord_payload s =
     (case sock_read (nat (sint (incomingWordSize s))) s of
        (tmp, s1) \<Rightarrow>
          (let s2 = (if tmp \<noteq> []
                     then s1\<lparr>incomingWordSize := incomingWordSize s1 - of_nat (length tmp),
                             incomingWord := incomingWord s1 @ tmp\<rparr>
                     else s1)
           in Inr (if incomingWordSize s2 = 0 then 1 else - 1, s2)))"

definition readWord :: "byte_order \<Rightarrow> Comm \<Rightarrow> cint result" where
  "readWord bo s =
     (if incomingWordSize s \<le>s 0 then
        (case readLength bo s of
           Inl err \<Rightarrow> Inl err
         | Inr (n, s0) \<Rightarrow>
             (let s1 = s0\<lparr>incomingWordSize := n\<rparr> in
              if n = - 1 then Inr (- 1, s1)
              else if n = - 2 \<or> n = - 3 \<or> n = - 4 then Inl (IncompleteWordLength, s1)
              else if n = 0 then Inr (0, s1\<lparr>incomingWord := []\<rparr>)
              else readWord_payload s1))
      else readWord_payload s)"

text \<open>
  Every byte \<open>readLength\<close> looks at is taken from the socket, so a call that does not
  report -1 leaves the socket with fewer buffered bytes; this is what makes the loop of
  \<open>readSentence\<close> terminate.
\<close>

lemma readLength_prefix_consumes:
  "sock_in s \<noteq> [] \<Longrightarrow>
   length (sock_in (snd (readLength_prefix bo s))) < length (sock_in s)"
  by (auto simp add: readLength_prefix_def sock_read1_def Let_def split: list.splits)

lemma readLength_state:
  "readLength bo s = Inr (n, s0) \<Longrightarrow> s0 = snd (readLength_prefix bo s)"
  "readLength bo s = Inl (err, s0) \<Longrightarrow> s0 = snd (readLength_prefix bo s)"
  by (auto simp add: readLength_def Let_def split: prod.splits sum.splits option.splits)

lemma readLength_consumes:
  "sock_in s \<noteq> [] \<Longrightarrow> readLength bo s = Inr (n, s0) \<Longrightarrow>
   length (sock_in s0) < length (sock_in s)"
  using readLength_prefix_consumes[of s bo] readLength_state(1)[of bo s n s0] by simp

lemma readLength_empty: "sock_in s = [] \<Longrightarrow> readLength bo s = Inr (- 1, s)"
  by (simp add: readLength_def readLength_prefix_def sock_read1_def)

lemma readWord_consumes:
  assumes "readWord bo s = Inr (r, s1)" and "0 \<le>s r"
  shows "length (sock_in s1) < length (sock_in s)"
proof (cases "incomingWordSize s \<le>s 0")
  case True
  obtain n s0 where rl: "readLength bo s = Inr (n, s0)"
    using assms(1) True by (cases "readLength bo s") (auto simp add: readWord_def)
  have n1: "n \<noteq> - 1"
    using assms True rl by (auto simp add: readWord_def Let_def word_sle_eq)
  then have ne: "sock_in s \<noteq> []" using rl readLength_empty[of s bo] by auto
  have lt: "length (sock_in s0) < length (sock_in s)"
    using readLength_consumes[OF ne rl] .
  show ?thesis
    using assms True rl n1 lt
    by (auto simp add: readWord_def readWord_payload_def sock_read_def Let_def
        split: if_splits)
next
  case False
  then have nz: "incomingWordSize s \<noteq> 0" by (auto simp add: word_sle_eq)
  have pos: "0 < sint (incomingWordSize s)" using False by (simp add: word_sle_eq)
  show ?thesis
    using assms False nz pos
    by (auto simp add: readWord_def readWord_payload_def sock_read_def Let_def word_sle_eq
        split: if_splits)
qed

function readSentence :: "env \<Rightarrow> Comm \<Rightarrow> unit result" where
  "readSentence e s =
     (case readWord (Q_BYTE_ORDER e) s of
        Inl err \<Rightarrow> Inl err
      | Inr (r, s1) \<Rightarrow>
          if 0 \<le>s r then
            (if incomingWord s1 = [] then Inr ((), s1\<lparr>sentenceCompleted := True\<rparr>)
             else readSentence e
                    (s1\<lparr>incomingSentence := addWord e (incomingSentence s1) (incomingWord s1),
                        incomingWord := [], incomingWordSize := - 1\<rparr>))
          else Inr ((), s1\<lparr>sentenceCompleted := False\<rparr>))"
  by pat_completeness auto
termination
proof (relation "measure (\<lambda>(e, s). length (sock_in s))")
  show "wf (measure (\<lambda>(e, s). length (sock_in s)))" by simp
next
  fix e s x2 x y
  assume "readWord (Q_BYTE_ORDER e) s = Inr x2" and "(x, y) = x2" and "0 \<le>s x"
  then have "length (sock_in y) < length (sock_in s)"
    using readWord_consumes[of "Q_BYTE_ORDER e" s x y] by simp
  then show "((e, y\<lparr>incomingSentence := addWord e (incomingSentence y) (incomingWord y),
                    incomingWord := [], incomingWordSize := - 1\<rparr>), e, s)
             \<in> measure (\<lambda>(e, s). length (sock_in s))"
    by simp
qed

declare readSentence.simps [simp del]

section \<open>Connection and login\<close>

definition isConnected :: "Comm \<Rightarrow> bool" where
  "isConnected s = (sock_state s = ConnectedState)"

definition isLoged :: "Comm \<Rightarrow> bool" where
  "isLoged s = (isConnected s \<and> m_loginState s = LogedIn)"

definition closeCom :: "bool \<Rightarrow> Comm \<Rightarrow> Comm" where
  "closeCom force s =
     (if isConnected s then
        (if force then
           emit (comError ''forced abort/close on socket'')
             (emit (comStateChanged Unconnected) (sock_close (sock_abort s)))
         else sock_disconnectFromHost s)
      else s)"

definition setLoginState :: "LoginState \<Rightarrow> Comm \<Rightarrow> Comm" where
  "setLoginState l s =
     (if l \<noteq> m_loginState s then emit (loginStateChanged l) (s\<lparr>m_loginState := l\<rparr>)
      else s\<lparr>m_loginState := l\<rparr>)"

text \<open>
  Modelled from the spec: the hash collaborator's helpers (QMD5.h is not among the
  sources). \<open>ToBinary\<close> decodes pairs of hex characters into the characters of their
  values (``decode the 32 hex characters of \<open>ret\<close> into 16 raw bytes''), and
  \<open>DigestToHexString\<close> writes each byte of the digest as two lower-case hex characters.
  A character that is no hex digit counts as 0 in \<open>hexval\<close>; the spec is silent on it.
  \<open>init\<close>, \<open>append\<close> and \<open>finish\<close> hash the concatenation of the appended chunks.
\<close>

definition hexval :: "char \<Rightarrow> nat" where
  "hexval c =
     (let n = of_char c in
      if 48 \<le> n \<and> n \<le> 57 then n - 48
      else if 97 \<le> n \<and> n \<le> 102 then n - 87
      else if 65 \<le> n \<and> n \<le> 70 then n - 55
      else (0::nat))"

fun ToBinary :: "QString \<Rightarrow> QString" where
  "ToBinary (a # b # r) = char_of (hexval a * 16 + hexval b) # ToBinary r"
| "ToBinary r = []"

definition hexdigit :: "nat \<Rightarrow> char" where
  "hexdigit n = ''0123456789abcdef'' ! (n mod 16)"

definition DigestToHexString :: "byte list \<Rightarrow> QString" where
  "DigestToHexString digest =
     concat (map (\<lambda>b. [hexdigit (unat b div 16), hexdigit (unat b mod 16)]) digest)"

text \<open>Hex digits are read without regard to case and written in lower case.\<close>

definition hex_lower :: "char \<Rightarrow> char" where
  "hex_lower c =
     (if (65::nat) \<le> of_char c \<and> of_char c \<le> (70::nat) then char_of (of_char c + 32 :: nat)
      else c)"

type_synonym md5_state_t = "byte list"

definition QMD5_init :: md5_state_t where
  "QMD5_init = []"

definition QMD5_append :: "md5_state_t \<Rightarrow> byte list \<Rightarrow> md5_state_t" where
  "QMD5_append st bs = st @ bs"

definition QMD5_finish :: "env \<Rightarrow> md5_state_t \<Rightarrow> byte list" where
  "QMD5_finish e st = md5_digest e st"

text \<open>\<open>strlen\<close>: the bytes of a C string end before its first zero byte.\<close>

definition strlen :: "byte list \<Rightarrow> nat" where
  "strlen bs = length (takeWhile (\<lambda>b. b \<noteq> 0) bs)"

text \<open>
  \<open>doLogin\<close>. In the \<open>LoginRequested\<close> branch the bytes appended to the MD5 state are the
  one byte of the empty string literal's terminator, the first \<open>strlen\<close> bytes of the
  Latin-1 password, and 16 bytes of the Latin-1 image of the decoded challenge.
\<close>

definition doLogin :: "env \<Rightarrow> Comm \<Rightarrow> unit result" where
  "doLogin e s =
     (case m_loginState s of
        NoLoged \<Rightarrow> Inr ((), s)
      | LoginRequested \<Rightarrow>
          if getResultType (incomingSentence s) \<noteq> Done then
            Inr ((), sock_close (setLoginState NoLoged (emit (comError ''Cannot login'') s)))
          else if count_attr (attributes (incomingSentence s)) \<noteq> 1 then
            (let s1 = emit (comError
                   ''Unknown remote login sentence format: didn't receive anything'') s;
                 s2 = setLoginState NoLoged s1
             in Inr ((), sock_close (s2\<lparr>incomingSentence := clear e (incomingSentence s2)\<rparr>)))
          else if length (attribute (attributes (incomingSentence s)) ''ret'') = 0 then
            (let s1 = emit (comError
                   ''Unknown remote login sentence format: Doesn't receive 'ret' namefield'') s;
                 s2 = setLoginState NoLoged s1
             in Inr ((), sock_close (s2\<lparr>incomingSentence := clear e (incomingSentence s2)\<rparr>)))
          else if length (attribute (attributes (incomingSentence s)) ''ret'') \<noteq> 32 then
            (let s1 = emit (comError
                   ''Unknown remote login sentence format: 'ret' field doesn't contains 32 characters'') s;
                 s2 = setLoginState NoLoged s1
             in Inr ((), sock_close (s2\<lparr>incomingSentence := clear e (incomingSentence s2)\<rparr>)))
          else
            (let bo = Q_BYTE_ORDER e;
                 md5ChallengeBinary = ToBinary (attribute (attributes (incomingSentence s)) ''ret'');
                 st0 = QMD5_init;
                 st1 = QMD5_append st0 [0];
                 st2 = QMD5_append st1
                         (take (strlen (toLatin1 (m_Password s))) (toLatin1 (m_Password s)));
                 st3 = QMD5_append st2 (take 16 (toLatin1 md5ChallengeBinary));
                 digest = QMD5_finish e st3;
                 md5PasswordToSend = DigestToHexString digest
             in seq (sendWord bo ''/login'' s) (\<lambda>_ s1.
                seq (sendWord bo (''=name='' @ m_Username s1) s1) (\<lambda>_ s2.
                seq (sendWord bo (''=response=00'' @ md5PasswordToSend) s2) (\<lambda>_ s3.
                seq (sendWord bo [] s3) (\<lambda>_ s4.
                  Inr ((), setLoginState UserPassSended
                             (s4\<lparr>incomingSentence := clear e (incomingSentence s4),
                                 incomingWordSize := - 1\<rparr>)))))))
      | UserPassSended \<Rightarrow>
          if getResultType (incomingSentence s) = Done then
            Inr ((), setLoginState LogedIn
                       (s\<lparr>incomingWordSize := - 1,
                          incomingSentence := clear e (incomingSentence s)\<rparr>))
          else
            (let s1 = setLoginState NoLoged s;
                 s2 = emit (comError ''Invalid Username or Password'') s1;
                 s3 = emit (comError (''remote msg: ''
                        @ attribute (attributes (incomingSentence s2)) ''message'')) s2
             in Inr ((), sock_close
                           (s3\<lparr>incomingWordSize := - 1,
                               incomingSentence := clear e (incomingSentence s3)\<rparr>)))
      | LogedIn \<Rightarrow> Inl (AlreadyLogedIn, s))"

section \<open>Sending sentences\<close>

text \<open>
  \<open>QString("%1").arg(ID)\<close> is the decimal numeral of the \<open>int\<close>, with a minus sign when
  it is negative.
\<close>

definition digit_char :: "nat \<Rightarrow> char" where
  "digit_char n = char_of (48 + n mod 10)"

fun dec_nat :: "nat \<Rightarrow> string" where
  "dec_nat n = (if n < 10 then [digit_char n] else dec_nat (n div 10) @ [digit_char (n mod 10)])"

declare dec_nat.simps [simp del]

definition arg_int :: "cint \<Rightarrow> QString" where
  "arg_int i = (if sint i < 0 then CHR ''-'' # dec_nat (nat (- sint i)) else dec_nat (nat (sint i)))"

fun sendWords :: "byte_order \<Rightarrow> QString list \<Rightarrow> Comm \<Rightarrow> unit result" where
  "sendWords bo [] s = Inr ((), s)"
| "sendWords bo (word # ws) s = seq (sendWord bo word s) (\<lambda>_ s1. sendWords bo ws s1)"

text \<open>
  \<open>sendSentence\<close>; \<open>++ID\<close> is the addition of \<open>32 word\<close>, which wraps around where the
  C++ increment of \<open>INT_MAX\<close> is undefined.
\<close>

definition sendSentence :: "byte_order \<Rightarrow> QSentence \<Rightarrow> bool \<Rightarrow> Comm \<Rightarrow> QString result" where
  "sendSentence bo sent addTag s =
     seq (sendWord bo (command sent) s) (\<lambda>_ s1.
     seq (sendWords bo (toWords (attributes sent)) s1) (\<lambda>_ s2.
     seq (sendWords bo (toWords (APIattributes sent)) s2) (\<lambda>_ s3.
     seq (sendWords bo (toWords (queries sent)) s3) (\<lambda>_ s4.
       if addTag then
         (if tag sent = [] then
            (let s5 = s4\<lparr>ID := ID s4 + 1\<rparr>;
                 word = arg_int (ID s5)
             in seq (sendWord bo (''.tag='' @ word) s5) (\<lambda>_ s6.
                seq (sendWord bo [] s6) (\<lambda>_ s7. Inr (word, s7))))
          else
            (let word = tag sent
             in seq (sendWord bo (''.tag='' @ word) s4) (\<lambda>_ s6.
                seq (sendWord bo [] s6) (\<lambda>_ s7. Inr (word, s7)))))
       else seq (sendWord bo [] s4) (\<lambda>_ s5. Inr ([], s5))))))"

section \<open>Dispatch of completed sentences\<close>

definition onReadyRead :: "env \<Rightarrow> Comm \<Rightarrow> unit result" where
  "onReadyRead e s =
     seq (readSentence e s) (\<lambda>_ s1.
       if sentenceCompleted s1 then
         (if m_loginState s1 \<noteq> LogedIn then
            seq (doLogin e s1) (\<lambda>_ s2. Inr ((), s2\<lparr>sentenceCompleted := False\<rparr>))
          else
            (let s2 = emit (comReceive (incomingSentence s1)) s1
             in Inr ((), s2\<lparr>incomingSentence := clear e (incomingSentence s2),
                            sentenceCompleted := False\<rparr>)))
       else Inr ((), s1))"

text \<open>
  The state the constructor leaves: \<open>m_loginState(NoLoged)\<close>, \<open>incomingWordSize(-1)\<close>, the
  strings and buffers empty, the static \<open>ID\<close> at 0. The constructor does not initialise
  \<open>sentenceCompleted\<close>; \<open>readSentence\<close> writes it before \<open>onReadyRead\<close> reads it. The
  sentence \<open>QSentence_empty\<close> stands for the default-constructed one.
\<close>

definition QBasicAttrib_empty :: QBasicAttrib where
  "QBasicAttrib_empty = \<lparr>toWords = [], entries = []\<rparr>"

definition QSentence_empty :: QSentence where
  "QSentence_empty =
     \<lparr>command = [], attributes = QBasicAttrib_empty, APIattributes = QBasicAttrib_empty,
      queries = QBasicAttrib_empty, tag = [], getResultType = NotDone\<rparr>"

definition Comm_init :: Comm where
  "Comm_init =
     \<lparr>sock_state = UnconnectedState, sock_in = [], sock_out = [],
      m_Username = [], m_Password = [],
      incomingWord = [], incomingSentence = QSentence_empty, sentenceCompleted = False,
      m_loginState = NoLoged, incomingWordSize = - 1, ID = 0, emitted = []\<rparr>"

section \<open>Changes of the socket's state\<close>

text \<open>
  Modelled from the spec: \<open>QSentence("/login")\<close>, the sentence that has the command
  \<open>/login\<close> and nothing else (QSentences.h is not among the sources).
\<close>

definition login_sentence :: QSentence where
  "login_sentence = QSentence_empty\<lparr>command := ''/login''\<rparr>"

text \<open>
  \<open>onSocketStateChanges\<close>, the slot that the constructor connects to the socket's
  \<open>stateChanged\<close> signal. It reports the new state with \<open>comStateChanged\<close>; on
  \<open>ConnectedState\<close> it also starts the login: the login state goes to \<open>NoLoged\<close>, the
  application is asked for the user name and the password, the login state goes to
  \<open>LoginRequested\<close>, the pending sentence is cleared and the sentence \<open>/login\<close> is sent
  without a tag.
\<close>

definition onSocketStateChanges :: "env \<Rightarrow> SocketState \<Rightarrow> Comm \<Rightarrow> unit result" where
  "onSocketStateChanges e st s =
     (case st of
        UnconnectedState \<Rightarrow> Inr ((), emit (comStateChanged Unconnected) s)
      | HostLookupState \<Rightarrow> Inr ((), emit (comStateChanged HostLookup) s)
      | ConnectingState \<Rightarrow> Inr ((), emit (comStateChanged Connecting) s)
      | ConnectedState \<Rightarrow>
          (let s1 = emit (comStateChanged Connected) s;
               s2 = setLoginState NoLoged s1;
               s3 = emit loginRequest s2;
               s4 = (case loginRequest_slots e (m_Username s3, m_Password s3) of
                       (user, pass) \<Rightarrow> s3\<lparr>m_Username := user, m_Password := pass\<rparr>);
               s5 = setLoginState LoginRequested s4;
               s6 = s5\<lparr>incomingSentence := clear e (incomingSentence s5)\<rparr>
           in seq (sendSentence (Q_BYTE_ORDER e) login_sentence False s6)
                  (\<lambda>_ s7. Inr ((), s7)))
      | BoundState \<Rightarrow> Inr ((), s)
      | ClosingState \<Rightarrow> Inr ((), emit (comStateChanged Closing) s)
      | ListeningState \<Rightarrow> Inr ((), s))"

section \<open>MD5 and the data of the examples\<close>

text \<open>
  Modelled from the spec: the MD5 primitive of the hash collaborator (QMD5.h is not among
  the sources), written after RFC 1321: padding to a multiple of 64 bytes with the bit
  length in the last eight, four 32-bit state words, 64 steps per block, the digest as
  the little-endian bytes of the state. The theorems about \<open>doLogin\<close> hold for any
  digest function of the environment; this one evaluates the examples.
\<close>

definition md5_K :: "cint list" where
  "md5_K =
     [0xd76aa478, 0xe8c7b756, 0x242070db, 0xc1bdceee,
      0xf57c0faf, 0x4787c62a, 0xa8304613, 0xfd469501,
      0x698098d8, 0x8b44f7af, 0xffff5bb1, 0x895cd7be,
      0x6b901122, 0xfd987193, 0xa679438e, 0x49b40821,
      0xf61e2562, 0xc040b340, 0x265e5a51, 0xe9b6c7aa,
      0xd62f105d, 0x02441453, 0xd8a1e681, 0xe7d3fbc8,
      0x21e1cde6, 0xc33707d6, 0xf4d50d87, 0x455a14ed,
      0xa9e3e905, 0xfcefa3f8, 0x676f02d9, 0x8d2a4c8a,
      0xfffa3942, 0x8771f681, 0x6d9d6122, 0xfde5380c,
      0xa4beea44, 0x4bdecfa9, 0xf6bb4b60, 0xbebfbc70,
      0x289b7ec6, 0xeaa127fa, 0xd4ef3085, 0x04881d05,
      0xd9d4d039, 0xe6db99e5, 0x1fa27cf8, 0xc4ac5665,
      0xf4292244, 0x432aff97, 0xab9423a7, 0xfc93a039,
      0x655b59c3, 0x8f0ccc92, 0xffeff47d, 0x85845dd1,
      0x6fa87e4f, 0xfe2ce6e0, 0xa3014314, 0x4e0811a1,
      0xf7537e82, 0xbd3af235, 0x2ad7d2bb, 0xeb86d391]"

definition md5_s :: "nat list" where
  "md5_s =
     [7, 12, 17, 22, 7, 12, 17, 22, 7, 12, 17, 22, 7, 12, 17, 22,
      5, 9, 14, 20, 5, 9, 14, 20, 5, 9, 14, 20, 5, 9, 14, 20,
      4, 11, 16, 23, 4, 11, 16, 23, 4, 11, 16, 23, 4, 11, 16, 23,
      6, 10, 15, 21, 6, 10, 15, 21, 6, 10, 15, 21, 6, 10, 15, 21]"

definition rotl32 :: "nat \<Rightarrow> cint \<Rightarrow> cint" where
  "rotl32 n x = push_bit n x OR drop_bit (32 - n) x"

definition le_word :: "byte list \<Rightarrow> cint" where
  "le_word bs = ucast (bs ! 0) OR push_bit 8 (ucast (bs ! 1)) OR push_bit 16 (ucast (bs ! 2))
                  OR push_bit 24 (ucast (bs ! 3))"

definition word_le :: "cint \<Rightarrow> byte list" where
  "word_le w = [ucast w, ucast (drop_bit 8 w), ucast (drop_bit 16 w), ucast (drop_bit 24 w)]"

definition md5_pad :: "byte list \<Rightarrow> byte list" where
  "md5_pad m =
     m @ [0x80] @ replicate ((55 + 64 - length m mod 64) mod 64) 0
       @ map (\<lambda>k. ucast (drop_bit (8 * k) (of_nat (8 * length m) :: 64 word))) [0..<8]"

definition md5_step ::
  "cint list \<Rightarrow> nat \<Rightarrow> cint \<times> cint \<times> cint \<times> cint
     \<Rightarrow> cint \<times> cint \<times> cint \<times> cint" where
  "md5_step M i st =
     (case st of (A, B, C, D) \<Rightarrow>
        (let (F, g) =
               (if i < 16 then ((B AND C) OR (NOT B AND D), i)
                else if i < 32 then ((D AND B) OR (NOT D AND C), (5 * i + 1) mod 16)
                else if i < 48 then (B XOR C XOR D, (3 * i + 5) mod 16)
                else (C XOR (B OR NOT D), (7 * i) mod 16))
         in (D, B + rotl32 (md5_s ! i) (F + A + md5_K ! i + M ! g), B, C)))"

definition md5_block ::
  "cint \<times> cint \<times> cint \<times> cint \<Rightarrow> byte list
     \<Rightarrow> cint \<times> cint \<times> cint \<times> cint" where
  "md5_block h blk =
     (let M = map (\<lambda>j. le_word (take 4 (drop (4 * j) blk))) [0..<16]
      in case (h, fold (md5_step M) [0..<64] h) of
           ((a0, b0, c0, d0), (A, B, C, D)) \<Rightarrow> (a0 + A, b0 + B, c0 + C, d0 + D))"

fun md5_blocks ::
  "nat \<Rightarrow> cint \<times> cint \<times> cint \<times> cint \<Rightarrow> byte list
     \<Rightarrow> cint \<times> cint \<times> cint \<times> cint" where
  "md5_blocks 0 h bs = h"
| "md5_blocks (Suc n) h bs = md5_blocks n (md5_block h (take 64 bs)) (drop 64 bs)"

definition md5 :: "byte list \<Rightarrow> byte list" where
  "md5 m =
     (let p = md5_pad m
      in case md5_blocks (length p div 64) (0x67452301, 0xefcdab89, 0x98badcfe, 0x10325476) p of
           (a, b, c, d) \<Rightarrow> word_le a @ word_le b @ word_le c @ word_le d)"

text \<open>
  The environment of the examples: a little-endian build, MD5, a sentence that takes
  its first word as the command and the later ones as attribute words, and an
  application that leaves the user name and the password as they are.
\<close>

definition fromLatin1 :: "QByteArray \<Rightarrow> QString" where
  "fromLatin1 bs = map (\<lambda>b. char_of (unat b)) bs"

definition env_example :: env where
  "env_example =
     \<lparr>Q_BYTE_ORDER = Q_LITTLE_ENDIAN,
      md5_digest = md5,
      addWord = (\<lambda>sent w.
        if command sent = [] then sent\<lparr>command := fromLatin1 w\<rparr>
        else sent\<lparr>attributes :=
               (attributes sent)\<lparr>toWords := toWords (attributes sent) @ [fromLatin1 w]\<rparr>\<rparr>),
      clear = (\<lambda>sent. QSentence_empty),
      loginRequest_slots = (\<lambda>(user, pass). (user, pass))\<rparr>"

text \<open>The reply \<open>!done =ret=...\<close> that carries a challenge.\<close>

definition challenge_sentence :: "QString \<Rightarrow> QSentence" where
  "challenge_sentence ret =
     \<lparr>command = ''!done'',
      attributes = \<lparr>toWords = [''=ret='' @ ret], entries = [(''ret'', ret)]\<rparr>,
      APIattributes = QBasicAttrib_empty, queries = QBasicAttrib_empty,
      tag = [], getResultType = Done\<rparr>"

definition awaiting_challenge :: "QString \<Rightarrow> QString \<Rightarrow> QString \<Rightarrow> Comm" where
  "awaiting_challenge user pass ret =
     Comm_init\<lparr>sock_state := ConnectedState, m_Username := user, m_Password := pass,
               incomingSentence := challenge_sentence ret, sentenceCompleted := True,
               m_loginState := LoginRequested\<rparr>"

section \<open>Observations on runs\<close>

text \<open>
  The state a call ends in, whether it returned or not, and what it returned.
\<close>

definition result_state :: "'a result \<Rightarrow> Comm" where
  "result_state r = (case r of Inl (err, s) \<Rightarrow> s | Inr (x, s) \<Rightarrow> s)"

definition result_value :: "'a result \<Rightarrow> error + 'a" where
  "result_value r = (case r of Inl (err, s) \<Rightarrow> Inl err | Inr (x, s) \<Rightarrow> Inr x)"

text \<open>
  The bytes \<open>sendWord\<close> writes for a word (\<open>None\<close> when it throws): they do not depend on
  the state it is called in.
\<close>

definition wire_word :: "byte_order \<Rightarrow> QString \<Rightarrow> QByteArray option" where
  "wire_word bo word =
     (case sendWord bo word Comm_init of Inl _ \<Rightarrow> None | Inr (_, t) \<Rightarrow> Some (sock_out t))"

text \<open>
  The same for a list of words sent one after the other, as each \<open>foreach\<close> of
  \<open>sendSentence\<close> do: the bytes written, and whether every word was sent (the loop stops at
  the first word that is too long).
\<close>

fun wire_words :: "byte_order \<Rightarrow> QString list \<Rightarrow> QByteArray \<times> bool" where
  "wire_words bo [] = ([], True)"
| "wire_words bo (word # ws) =
     (case wire_word bo word of
        None \<Rightarrow> ([], False)
      | Some bs \<Rightarrow> (case wire_words bo ws of (rest, ok) \<Rightarrow> (bs @ rest, ok)))"

text \<open>
  The value that \<open>readLength\<close> reads through \<open>messageLength\<close> before it frees the blocks
  (\<open>None\<close> when it returns early).
\<close>

definition retMessageLength :: "byte_order \<Rightarrow> Comm \<Rightarrow> cint option" where
  "retMessageLength bo s =
     (case readLength_prefix bo s of
        (Inl n, s1) \<Rightarrow> None
      | (Inr (messageLength, h), s1) \<Rightarrow> map_option (bytes_int bo) (h messageLength))"

text \<open>The number a decimal numeral stands for.\<close>

definition dec_value :: "string \<Rightarrow> nat" where
  "dec_value ds = foldl (\<lambda>a c. 10 * a + (of_char c - 48)) 0 ds"

text \<open>
  The peer's bytes reach the socket in pieces: \<open>deliver\<close> adds a piece to what the socket
  has buffered. \<open>poll_bytes\<close> delivers the bytes one at a time, calls \<open>readWord\<close> after
  each, and lists what every call returned together with \<open>incomingWord\<close> after it; it
  stops at a throw.
\<close>

definition deliver :: "byte list \<Rightarrow> Comm \<Rightarrow> Comm" where
  "deliver bs s = s\<lparr>sock_in := sock_in s @ bs\<rparr>"

fun poll_bytes :: "byte_order \<Rightarrow> byte list \<Rightarrow> Comm \<Rightarrow> (cint \<times> QByteArray) list \<times> Comm" where
  "poll_bytes bo [] s = ([], s)"
| "poll_bytes bo (b # bs) s =
     (case readWord bo (deliver [b] s) of
        Inl (err, s1) \<Rightarrow> ([], s1)
      | Inr (r, s1) \<Rightarrow>
          (case poll_bytes bo bs s1 of (trace, s2) \<Rightarrow> ((r, incomingWord s1) # trace, s2)))"

section \<open>Properties of the length codec\<close>

subsection \<open>Bits of the marker constants and of the tests on the first byte\<close>

lemma cint_eq_iff: "(a::cint) = b \<longleftrightarrow> (\<forall>n<32. bit a n = bit b n)"
  by (simp add: bit_eq_iff)

lemma byte_eq_iff: "(a::byte) = b \<longleftrightarrow> (\<forall>n<8. bit a n = bit b n)"
  by (simp add: bit_eq_iff)

lemma bit_shifted_mask: "bit (push_bit m (mask k) :: int) n \<longleftrightarrow> m \<le> n \<and> n < m + k"
  by (auto simp add: bit_simps)

lemma bit_0x80: "bit (0x80::int) n \<longleftrightarrow> n = 7"
  using bit_shifted_mask[of 7 1 n] by (simp add: mask_eq_exp_minus_1) arith
lemma bit_0xC0: "bit (0xC0::int) n \<longleftrightarrow> n = 6 \<or> n = 7"
  using bit_shifted_mask[of 6 2 n] by (simp add: mask_eq_exp_minus_1) arith
lemma bit_0xE0: "bit (0xE0::int) n \<longleftrightarrow> n = 5 \<or> n = 6 \<or> n = 7"
  using bit_shifted_mask[of 5 3 n] by (simp add: mask_eq_exp_minus_1) arith
lemma bit_0x7F: "bit (0x7F::int) n \<longleftrightarrow> n < 7"
  using bit_shifted_mask[of 0 7 n] by (simp add: mask_eq_exp_minus_1)
lemma bit_0x3F: "bit (0x3F::int) n \<longleftrightarrow> n < 6"
  using bit_shifted_mask[of 0 6 n] by (simp add: mask_eq_exp_minus_1)
lemma bit_0x1F: "bit (0x1F::int) n \<longleftrightarrow> n < 5"
  using bit_shifted_mask[of 0 5 n] by (simp add: mask_eq_exp_minus_1)

lemmas marker_bits = bit_0x80 bit_0xC0 bit_0xE0 bit_0x7F bit_0x3F bit_0x1F

lemma first_byte_test_E0: "((scast (c::byte) :: cint) AND 0xE0 = 0xE0) \<longleftrightarrow> bit c 7 \<and> bit c 6 \<and> bit c 5"
  apply (simp add: cint_eq_iff marker_bits bit_simps)
  apply (rule iffI)
  subgoal by (frule spec[of _ 7], frule spec[of _ 6], drule spec[of _ 5]) simp
  subgoal by auto
  done

lemma first_byte_test_C0: "((scast (c::byte) :: cint) AND 0xC0 = 0xC0) \<longleftrightarrow> bit c 7 \<and> bit c 6"
  apply (simp add: cint_eq_iff marker_bits bit_simps)
  apply (rule iffI)
  subgoal by (frule spec[of _ 7], drule spec[of _ 6]) simp
  subgoal by auto
  done

lemma first_byte_test_80: "((scast (c::byte) :: cint) AND 0x80 = 0x80) \<longleftrightarrow> bit c 7"
  apply (simp add: cint_eq_iff marker_bits bit_simps)
  apply (rule iffI)
  subgoal by (drule spec[of _ 7]) simp
  subgoal by auto
  done

lemma sint_nonneg: "0 \<le>s (w::cint) \<Longrightarrow> sint w = uint w"
proof -
  assume a: "0 \<le>s w"
  then have "0 \<le> signed_take_bit 31 (uint w)" by (simp add: word_sle_eq sint_uint)
  then have nb': "\<not> bit (uint w) 31" by simp
  have "uint w = take_bit 32 (uint w)" using uint_lt2p[of w] by (simp add: take_bit_int_eq_self)
  also have "\<dots> = take_bit 31 (uint w)" using nb' take_bit_Suc_from_most[of 31 "uint w"] by simp
  finally have "take_bit 31 (uint w) = uint w" by simp
  then show ?thesis using nb' by (simp add: sint_uint signed_take_bit_eq_if_positive)
qed

lemma sless_iff: "0 \<le>s (w::cint) \<Longrightarrow> 0 \<le> sint c \<Longrightarrow> (w <s c) = (w < c)"
  by (simp add: sint_nonneg word_sless_alt word_less_def word_sle_eq)

lemma bit_below: "(w::cint) < 2^k \<Longrightarrow> bit w n \<Longrightarrow> n < k"
  apply (subgoal_tac "take_bit k w = w")
  apply (metis bit_take_bit_iff)
  apply (simp add: less_mask_eq take_bit_eq_mask)
  done

lemmas bit_below_14 = bit_below[of _ 14, simplified]
lemmas bit_below_21 = bit_below[of _ 21, simplified]
lemmas bit_below_28 = bit_below[of _ 28, simplified]

lemma high_byte_zero: "(w::cint) < 2^k \<Longrightarrow> k \<le> m \<Longrightarrow> (ucast (drop_bit m w) :: byte) = 0"
  by (auto simp add: byte_eq_iff bit_simps dest: bit_below)

lemma reassemble: "ucast (ucast w :: byte) OR push_bit 8 (ucast (ucast (drop_bit 8 w) :: byte)) 
   OR push_bit 16 (ucast (ucast (drop_bit 16 w) :: byte)) OR push_bit 24 (ucast (ucast (drop_bit 24 w) :: byte)) = (w::cint)"
  (is "?l = w")
proof (rule bit_eqI)
  fix n assume "possible_bit TYPE(cint) n"
  then have n: "n < 32" by simp
  consider "n < 8" | "8 \<le> n" "n < 16" | "16 \<le> n" "n < 24" | "24 \<le> n" by linarith
  then show "bit ?l n = bit w n"
    using n by cases (auto simp add: bit_simps)
qed

lemma strip_marker_two: "(w::cint) < 2^14 \<Longrightarrow> ((ucast (drop_bit 8 w) :: byte) OR 0x80) AND 0x7f = ucast (drop_bit 8 w)"
  by (auto simp add: byte_eq_iff bit_simps marker_bits dest!: bit_below_14)

lemma strip_marker_three: "(w::cint) < 2^21 \<Longrightarrow> ((ucast (drop_bit 16 w) :: byte) OR 0xC0) AND 0x3f = ucast (drop_bit 16 w)"
  by (auto simp add: byte_eq_iff bit_simps marker_bits dest!: bit_below_21)

lemma strip_marker_four: "(w::cint) < 2^28 \<Longrightarrow> ((ucast (drop_bit 24 w) :: byte) OR 0xE0) AND 0x1f = ucast (drop_bit 24 w)"
  by (auto simp add: byte_eq_iff bit_simps marker_bits dest!: bit_below_28)

lemma scast_ucast_small: "(w::cint) < 2^7 \<Longrightarrow> scast (ucast w :: byte) = w"
proof -
  assume "w < 2^7"
  then have hb: "\<And>n. bit w n \<Longrightarrow> n < 7" by (rule bit_below)
  show ?thesis
    by (simp add: cint_eq_iff bit_simps) (auto simp: min_def dest: hb)
qed



lemma reassemble_two: "(n::cint) < 2^14 \<Longrightarrow> ucast (ucast n :: byte) OR push_bit 8 (ucast (ucast (drop_bit 8 n) :: byte)) = n"
  using reassemble[of n] by (simp add: high_byte_zero[of n 14])

lemma reassemble_three: "(n::cint) < 2^21 \<Longrightarrow> ucast (ucast n :: byte) OR push_bit 8 (ucast (ucast (drop_bit 8 n) :: byte))
    OR push_bit 16 (ucast (ucast (drop_bit 16 n) :: byte)) = n"
  using reassemble[of n] by (simp add: high_byte_zero[of n 21])

lemma bytes_int_int_bytes: "bytes_int bo (int_bytes bo w) = w"
  by (cases bo) (simp_all add: bytes_int_def int_bytes_def reassemble)

lemma bits_bound:
  assumes "\<And>k. bit (r::cint) k \<Longrightarrow> k < 7"
  shows "0 \<le>s r \<and> r <s 0x80"
proof -
  have "take_bit 7 r = r"
    by (rule bit_eqI) (auto simp add: bit_simps dest: assms)
  then have "r AND mask 7 = r" by (simp add: take_bit_eq_mask)
  then have u: "uint r < 2 ^ 7" by (simp add: mask_eq_iff)
  have "sint r = signed_take_bit 31 (uint r)" by (simp add: sint_uint)
  also have "\<dots> = uint r"
  proof (rule signed_take_bit_int_eq_self)
    show "- (2 ^ 31) \<le> uint r" by (rule order_trans[of _ 0]) simp_all
    show "uint r < 2 ^ 31" using u by simp
  qed
  finally show ?thesis using u by (simp add: word_sle_eq word_sless_alt)
qed

lemma byte_bit: "bit (b::byte) k \<Longrightarrow> k < 8"
  using bit_imp_le_length[of b k] by simp

lemma decoded_one_bound: "\<not> bit (c::byte) 7 \<Longrightarrow> 0 \<le>s (scast c :: cint) \<and> (scast c :: cint) <s 0x80"
  by (rule bits_bound) (auto simp add: bit_simps min_def dest: byte_bit split: if_splits)

subsection \<open>The four forms of a prefix\<close>

text \<open>
  A first byte with its top bit clear is a length of its own, and \<open>readLength\<close> returns
  it on both byte orders. A first byte with its top bit set starts a prefix of two,
  three or four bytes: once all of them are there, the value read through
  \<open>messageLength\<close> is the one the remaining bits spell, and the run then ends in the
  second free of the block of \<open>lengthData\<close>; when the socket runs dry before, the function
  returns -2, -3 or -4.
\<close>

lemmas first_byte_tests = first_byte_test_E0 first_byte_test_C0 first_byte_test_80

lemma readLength_one:
  "\<not> bit c 7 \<Longrightarrow>
   readLength bo (t\<lparr>sock_in := c # rest\<rparr>) = Inr (scast c, t\<lparr>sock_in := rest\<rparr>)"
  by (simp add: readLength_def readLength_prefix_def free_block_def sock_read1_def
      first_byte_tests bytes_int_int_bytes)

lemma readLength_two:
  "bit c 7 \<Longrightarrow> \<not> bit c 6 \<Longrightarrow>
   retMessageLength bo (t\<lparr>sock_in := c # b2 # rest\<rparr>) =
     Some (ucast b2 OR push_bit 8 (ucast (c AND 0x7f)))
   \<and> readLength bo (t\<lparr>sock_in := c # b2 # rest\<rparr>) = Inl (HeapFault, t\<lparr>sock_in := rest\<rparr>)"
  by (cases bo)
     (simp_all add: readLength_def retMessageLength_def readLength_prefix_def free_block_def
        sock_read1_def first_byte_tests bytes_int_def Let_def)

lemma readLength_three:
  "bit c 7 \<Longrightarrow> bit c 6 \<Longrightarrow> \<not> bit c 5 \<Longrightarrow>
   retMessageLength bo (t\<lparr>sock_in := c # b2 # b3 # rest\<rparr>) =
     Some (ucast b3 OR push_bit 8 (ucast b2) OR push_bit 16 (ucast (c AND 0x3f)))
   \<and> readLength bo (t\<lparr>sock_in := c # b2 # b3 # rest\<rparr>) =
       Inl (HeapFault, t\<lparr>sock_in := rest\<rparr>)"
  by (cases bo)
     (simp_all add: readLength_def retMessageLength_def readLength_prefix_def free_block_def
        sock_read1_def first_byte_tests bytes_int_def Let_def)

lemma readLength_four:
  "bit c 7 \<Longrightarrow> bit c 6 \<Longrightarrow> bit c 5 \<Longrightarrow>
   retMessageLength bo (t\<lparr>sock_in := c # b2 # b3 # b4 # rest\<rparr>) =
     Some (ucast b4 OR push_bit 8 (ucast b3) OR push_bit 16 (ucast b2)
           OR push_bit 24 (ucast (c AND 0x1f)))
   \<and> readLength bo (t\<lparr>sock_in := c # b2 # b3 # b4 # rest\<rparr>) =
       Inl (HeapFault, t\<lparr>sock_in := rest\<rparr>)"
  by (cases bo)
     (simp_all add: readLength_def retMessageLength_def readLength_prefix_def free_block_def
        sock_read1_def first_byte_tests bytes_int_def Let_def)

lemma readLength_short:
  "bit c 7 \<Longrightarrow> readLength bo (t\<lparr>sock_in := [c]\<rparr>) = Inr (- 2, t\<lparr>sock_in := []\<rparr>)"
  "bit c 7 \<Longrightarrow> bit c 6 \<Longrightarrow>
   readLength bo (t\<lparr>sock_in := [c, b2]\<rparr>) = Inr (- 3, t\<lparr>sock_in := []\<rparr>)"
  "bit c 7 \<Longrightarrow> bit c 6 \<Longrightarrow> bit c 5 \<Longrightarrow>
   readLength bo (t\<lparr>sock_in := [c, b2, b3]\<rparr>) = Inr (- 4, t\<lparr>sock_in := []\<rparr>)"
  by (simp_all add: readLength_def readLength_prefix_def sock_read1_def first_byte_tests Let_def)

subsection \<open>Decoding what \<open>writeLength\<close> writes\<close>

lemma decode_one_byte: "0 \<le>s n \<Longrightarrow> n <s 0x80 \<Longrightarrow>
   readLength bo (t\<lparr>sock_in := ucast n # rest\<rparr>) = Inr (n, t\<lparr>sock_in := rest\<rparr>)"
proof -
  assume a: "0 \<le>s n" "n <s 0x80"
  then have lt: "n < 2^7" by (simp add: sless_iff)
  have hb: "\<And>k. bit n k \<Longrightarrow> k < 7" using lt by (rule bit_below)
  have nb: "\<not> bit (ucast n :: byte) 7" using hb[of 7] by (auto simp: bit_simps)
  show ?thesis using readLength_one[OF nb] by (simp add: scast_ucast_small[OF lt])
qed

lemma decode_two_bytes: "0 \<le>s n \<Longrightarrow> n <s 0x4000 \<Longrightarrow>
   retMessageLength bo (t\<lparr>sock_in := [ucast (drop_bit 8 n) OR 0x80, ucast n] @ rest\<rparr>) = Some n
   \<and> readLength bo (t\<lparr>sock_in := [ucast (drop_bit 8 n) OR 0x80, ucast n] @ rest\<rparr>) =
       Inl (HeapFault, t\<lparr>sock_in := rest\<rparr>)"
proof -
  assume a: "0 \<le>s n" "n <s 0x4000"
  then have lt: "n < 2^14" by (simp add: sless_iff)
  have hb: "\<And>k. bit n k \<Longrightarrow> k < 14" using lt by (rule bit_below)
  have b7: "bit ((ucast (drop_bit 8 n) :: byte) OR 0x80) 7" by (simp add: bit_simps)
  have b6: "\<not> bit ((ucast (drop_bit 8 n) :: byte) OR 0x80) 6" using hb[of 14] by (auto simp add: bit_simps)
  show ?thesis using readLength_two[OF b7 b6]
    by (simp add: strip_marker_two[OF lt] reassemble_two[OF lt])
qed

lemma decode_three_bytes: "0 \<le>s n \<Longrightarrow> n <s 0x200000 \<Longrightarrow>
   retMessageLength bo (t\<lparr>sock_in := [ucast (drop_bit 16 n) OR 0xC0, ucast (drop_bit 8 n), ucast n] @ rest\<rparr>) = Some n
   \<and> readLength bo (t\<lparr>sock_in := [ucast (drop_bit 16 n) OR 0xC0, ucast (drop_bit 8 n), ucast n] @ rest\<rparr>) =
       Inl (HeapFault, t\<lparr>sock_in := rest\<rparr>)"
proof -
  assume a: "0 \<le>s n" "n <s 0x200000"
  then have lt: "n < 2^21" by (simp add: sless_iff)
  have hb: "\<And>k. bit n k \<Longrightarrow> k < 21" using lt by (rule bit_below)
  have b7: "bit ((ucast (drop_bit 16 n) :: byte) OR 0xC0) 7" by (simp add: bit_simps)
  have b6: "bit ((ucast (drop_bit 16 n) :: byte) OR 0xC0) 6" by (simp add: bit_simps)
  have b5: "\<not> bit ((ucast (drop_bit 16 n) :: byte) OR 0xC0) 5" using hb[of 21] by (auto simp add: bit_simps)
  show ?thesis using readLength_three[OF b7 b6 b5]
    by (simp add: strip_marker_three[OF lt] reassemble_three[OF lt])
qed

lemma decode_four_bytes: "0 \<le>s n \<Longrightarrow> n <s 0x10000000 \<Longrightarrow>
   retMessageLength bo (t\<lparr>sock_in := [ucast (drop_bit 24 n) OR 0xE0, ucast (drop_bit 16 n), ucast (drop_bit 8 n), ucast n] @ rest\<rparr>) = Some n
   \<and> readLength bo (t\<lparr>sock_in := [ucast (drop_bit 24 n) OR 0xE0, ucast (drop_bit 16 n), ucast (drop_bit 8 n), ucast n] @ rest\<rparr>) =
       Inl (HeapFault, t\<lparr>sock_in := rest\<rparr>)"
proof -
  assume a: "0 \<le>s n" "n <s 0x10000000"
  then have lt: "n < 2^28" by (simp add: sless_iff)
  have b7: "bit ((ucast (drop_bit 24 n) :: byte) OR 0xE0) 7" by (simp add: bit_simps)
  have b6: "bit ((ucast (drop_bit 24 n) :: byte) OR 0xE0) 6" by (simp add: bit_simps)
  have b5: "bit ((ucast (drop_bit 24 n) :: byte) OR 0xE0) 5" by (simp add: bit_simps)
  show ?thesis using readLength_four[OF b7 b6 b5]
    by (simp add: strip_marker_four[OF lt] reassemble)
qed

lemma encode_one_byte: "n <s 0x80 \<Longrightarrow>
   writeLength Q_LITTLE_ENDIAN n s = Inr ((), s\<lparr>sock_out := sock_out s @ [ucast n]\<rparr>)"
  by (simp add: writeLength_def int_bytes_def sock_write_def)

lemma encode_two_bytes: "\<not> n <s 0x80 \<Longrightarrow> n <s 0x4000 \<Longrightarrow>
   writeLength bo n s = Inr ((), s\<lparr>sock_out := sock_out s @ [ucast (drop_bit 8 n) OR 0x80, ucast n]\<rparr>)"
  by (cases bo) (simp_all add: writeLength_def int_bytes_def sock_write_def)

lemma encode_three_bytes: "\<not> n <s 0x80 \<Longrightarrow> \<not> n <s 0x4000 \<Longrightarrow> n <s 0x200000 \<Longrightarrow>
   writeLength bo n s = Inr ((), s\<lparr>sock_out := sock_out s @ [ucast (drop_bit 16 n) OR 0xC0, ucast (drop_bit 8 n), ucast n]\<rparr>)"
  by (cases bo) (simp_all add: writeLength_def int_bytes_def sock_write_def)

lemma encode_four_bytes: "\<not> n <s 0x80 \<Longrightarrow> \<not> n <s 0x4000 \<Longrightarrow> \<not> n <s 0x200000 \<Longrightarrow> n <s 0x10000000 \<Longrightarrow>
   writeLength bo n s = Inr ((), s\<lparr>sock_out := sock_out s @
      [ucast (drop_bit 24 n) OR 0xE0, ucast (drop_bit 16 n), ucast (drop_bit 8 n), ucast n]\<rparr>)"
  by (cases bo) (simp_all add: writeLength_def int_bytes_def sock_write_def)

lemma encode_too_long: "0x10000000 \<le>s n \<Longrightarrow> writeLength bo n s = Inl (WordTooLong, s)"
  by (simp add: writeLength_def word_sle_eq word_sless_alt)

subsection \<open>What \<open>readLength\<close> returns\<close>

lemma readLength_returns:
  assumes "readLength bo t = Inr (v, t1)"
  shows "- 4 \<le>s v \<and> v <s 0x80"
proof (cases "sock_in t")
  case Nil
  then have "v = - 1" using assms by (auto simp add: readLength_empty)
  then show ?thesis by (simp add: word_sle_eq word_sless_alt)
next
  case (Cons c r1)
  then have t1: "t = t\<lparr>sock_in := c # r1\<rparr>" by simp
  show ?thesis
  proof (cases "bit c 7")
    case False
    have "readLength bo t = Inr (scast c, t\<lparr>sock_in := r1\<rparr>)"
      using readLength_one[where c=c and bo=bo and t=t and rest=r1, OF False] t1 by simp
    then have "v = scast c" using assms by simp
    then show ?thesis
      using decoded_one_bound[OF False] by (simp add: word_sle_eq word_sless_alt)
  next
    case True
    have "v = - 2 \<or> v = - 3 \<or> v = - 4"
      using assms True Cons
      by (auto simp add: readLength_def readLength_prefix_def free_block_def sock_read1_def
          first_byte_tests Let_def split: list.splits if_splits)
    then show ?thesis by (auto simp add: word_sle_eq word_sless_alt)
  qed
qed

subsection \<open>Round trip\<close>

text \<open>
  Claim C1. For every \<open>int\<close> \<open>n\<close> with \<open>0 \<le> n < 0x80\<close>, \<open>writeLength\<close> on a little-endian
  build appends the one byte \<open>n\<close> to the socket's output, and \<open>readLength\<close> on a socket that
  has buffered that byte (followed by anything) returns \<open>n\<close> and consumes exactly that
  byte. For every \<open>n\<close> with \<open>0x80 \<le> n < 0x10000000\<close>, \<open>writeLength\<close> appends a prefix of two
  to four bytes, and \<open>readLength\<close> on that prefix consumes it and reads \<open>n\<close> through
  \<open>messageLength\<close>, but does not return it: \<open>messageLength\<close> points into the block of
  \<open>lengthData\<close>, and the two \<open>delete\<close> statements free that block twice. For every
  \<open>n \<ge> 0x10000000\<close>, \<open>writeLength\<close> throws ``Word too long'' and writes nothing. What
  \<open>readLength\<close> returns is one of -4 to -1 or a one-byte length, so it is below \<open>0x80\<close>.
\<close>

theorem length_codec_roundtrip:
  "(0 \<le>s n \<and> n <s 0x80 \<longrightarrow>
      writeLength Q_LITTLE_ENDIAN n s = Inr ((), s\<lparr>sock_out := sock_out s @ [ucast n]\<rparr>)
      \<and> readLength bo (t\<lparr>sock_in := [ucast n] @ rest\<rparr>) = Inr (n, t\<lparr>sock_in := rest\<rparr>))
   \<and> (0x80 \<le>s n \<and> n <s 0x10000000 \<longrightarrow>
      (\<exists>bs. writeLength bo n s = Inr ((), s\<lparr>sock_out := sock_out s @ bs\<rparr>)
            \<and> retMessageLength bo (t\<lparr>sock_in := bs @ rest\<rparr>) = Some n
            \<and> readLength bo (t\<lparr>sock_in := bs @ rest\<rparr>) = Inl (HeapFault, t\<lparr>sock_in := rest\<rparr>)))
   \<and> (0x10000000 \<le>s n \<longrightarrow> writeLength bo n s = Inl (WordTooLong, s))
   \<and> (\<forall>v t1. readLength bo t = Inr (v, t1) \<longrightarrow> - 4 \<le>s v \<and> v <s 0x80)"
proof (intro conjI impI allI)
  assume a: "0 \<le>s n \<and> n <s 0x80"
  then show "writeLength Q_LITTLE_ENDIAN n s = Inr ((), s\<lparr>sock_out := sock_out s @ [ucast n]\<rparr>)"
    by (simp add: encode_one_byte)
next
  assume a: "0 \<le>s n \<and> n <s 0x80"
  show "readLength bo (t\<lparr>sock_in := [ucast n] @ rest\<rparr>) = Inr (n, t\<lparr>sock_in := rest\<rparr>)"
    using a decode_one_byte[where n=n and bo=bo and t=t and rest=rest] by simp
next
  assume a: "0x80 \<le>s n \<and> n <s 0x10000000"
  then have n1: "\<not> n <s 0x80" and n4: "n <s 0x10000000"
    by (simp_all add: word_sle_eq word_sless_alt)
  have n0: "0 \<le>s n" using a by (simp add: word_sle_eq)
  consider (two) "n <s 0x4000"
    | (three) "\<not> n <s 0x4000" "n <s 0x200000"
    | (four) "\<not> n <s 0x4000" "\<not> n <s 0x200000"
    by blast
  then show "\<exists>bs. writeLength bo n s = Inr ((), s\<lparr>sock_out := sock_out s @ bs\<rparr>)
            \<and> retMessageLength bo (t\<lparr>sock_in := bs @ rest\<rparr>) = Some n
            \<and> readLength bo (t\<lparr>sock_in := bs @ rest\<rparr>) = Inl (HeapFault, t\<lparr>sock_in := rest\<rparr>)"
  proof cases
    case two
    then show ?thesis
      using encode_two_bytes[OF n1 two, where bo=bo and s=s]
        decode_two_bytes[OF n0 two, where bo=bo and t=t and rest=rest] by blast
  next
    case three
    then show ?thesis
      using encode_three_bytes[OF n1 three, where bo=bo and s=s]
        decode_three_bytes[OF n0 three(2), where bo=bo and t=t and rest=rest] by blast
  next
    case four
    then show ?thesis
      using encode_four_bytes[OF n1 four n4, where bo=bo and s=s]
        decode_four_bytes[OF n0 n4, where bo=bo and t=t and rest=rest] by blast
  qed
next
  assume "0x10000000 \<le>s n"
  then show "writeLength bo n s = Inl (WordTooLong, s)" by (rule encode_too_long)
next
  fix v t1
  assume "readLength bo t = Inr (v, t1)"
  then show "- 4 \<le>s v" using readLength_returns by blast
next
  fix v t1
  assume "readLength bo t = Inr (v, t1)"
  then show "v <s 0x80" using readLength_returns by blast
qed

text \<open>
  The round trip at \<open>n = 5\<close>, the prefix \<open>92 34\<close> of \<open>n = 0x1234\<close>, which is read and then
  freed twice, and the rejection at \<open>n = 0x10000000\<close>.
\<close>

theorem length_codec_roundtrip_witness:
  "0 \<le>s (5::cint) \<and> (5::cint) <s 0x80
   \<and> writeLength Q_LITTLE_ENDIAN 5 Comm_init = Inr ((), Comm_init\<lparr>sock_out := [5]\<rparr>)
   \<and> readLength Q_LITTLE_ENDIAN (Comm_init\<lparr>sock_in := [5]\<rparr>) = Inr (5, Comm_init)
   \<and> 0x80 \<le>s (0x1234::cint) \<and> (0x1234::cint) <s 0x10000000
   \<and> writeLength Q_LITTLE_ENDIAN 0x1234 Comm_init = Inr ((), Comm_init\<lparr>sock_out := [0x92, 0x34]\<rparr>)
   \<and> retMessageLength Q_LITTLE_ENDIAN (Comm_init\<lparr>sock_in := [0x92, 0x34]\<rparr>) = Some 0x1234
   \<and> readLength Q_LITTLE_ENDIAN (Comm_init\<lparr>sock_in := [0x92, 0x34]\<rparr>) = Inl (HeapFault, Comm_init)
   \<and> 0x10000000 \<le>s (0x10000000::cint)
   \<and> writeLength Q_LITTLE_ENDIAN 0x10000000 Comm_init = Inl (WordTooLong, Comm_init)
   \<and> - 4 \<le>s (5::cint)"
  using length_codec_roundtrip[where n="5" and bo=Q_LITTLE_ENDIAN and s=Comm_init and t=Comm_init and rest="[]"]
    length_codec_roundtrip[where n="0x1234" and bo=Q_LITTLE_ENDIAN and s=Comm_init and t=Comm_init and rest="[]"]
    length_codec_roundtrip[where n="0x10000000" and bo=Q_LITTLE_ENDIAN and s=Comm_init and t="Comm_init\<lparr>sock_in := [5]\<rparr>" and rest="[]"]
  by (simp add: writeLength_def readLength_def readLength_prefix_def retMessageLength_def
       free_block_def int_bytes_def bytes_int_def sock_write_def sock_read1_def
       Comm_init_def word_sle_eq word_sless_alt)

text \<open>
  On a big-endian build the one-byte branch of \<open>writeLength\<close>, which stands outside the
  byte-order conditional, sends \<open>lengthData[0]\<close>, the most significant byte: every length
  below \<open>0x80\<close> is written as 0.
\<close>

lemma writeLength_big_endian_short:
  "writeLength Q_BIG_ENDIAN 5 Comm_init = Inr ((), Comm_init\<lparr>sock_out := [0]\<rparr>)"
  by (simp add: writeLength_def int_bytes_def sock_write_def Comm_init_def)

section \<open>Connection state and queries\<close>

text \<open>
  Claim C9. \<open>isLoged\<close> implies \<open>isConnected\<close>: it holds exactly when the socket is in
  \<open>ConnectedState\<close> and the login state is \<open>LogedIn\<close>, so it is false whenever the socket is
  not connected, whatever the login state. In particular it is false after a forced
  \<open>closeCom\<close>, which leaves the login state as it was.
\<close>

theorem isLoged_implies_isConnected:
  "(isLoged s \<longrightarrow> isConnected s)
   \<and> isLoged s = (sock_state s = ConnectedState \<and> m_loginState s = LogedIn)
   \<and> (sock_state s \<noteq> ConnectedState \<longrightarrow> \<not> isLoged s)
   \<and> \<not> isLoged (closeCom True s)
   \<and> m_loginState (closeCom True s) = m_loginState s"
  by (simp add: isLoged_def isConnected_def closeCom_def sock_close_def sock_abort_def emit_def)

text \<open>A connected, logged-in state, and a closing one whose login state is still \<open>LogedIn\<close>.\<close>

theorem isLoged_implies_isConnected_witness:
  "isLoged (Comm_init\<lparr>sock_state := ConnectedState, m_loginState := LogedIn\<rparr>)
   \<and> isConnected (Comm_init\<lparr>sock_state := ConnectedState, m_loginState := LogedIn\<rparr>)
   \<and> sock_state (Comm_init\<lparr>sock_state := ClosingState, m_loginState := LogedIn\<rparr>) \<noteq> ConnectedState
   \<and> m_loginState (Comm_init\<lparr>sock_state := ClosingState, m_loginState := LogedIn\<rparr>) = LogedIn
   \<and> \<not> isLoged (Comm_init\<lparr>sock_state := ClosingState, m_loginState := LogedIn\<rparr>)"
  using isLoged_implies_isConnected[of "Comm_init\<lparr>sock_state := ConnectedState, m_loginState := LogedIn\<rparr>"]
    isLoged_implies_isConnected[of "Comm_init\<lparr>sock_state := ClosingState, m_loginState := LogedIn\<rparr>"]
  by (simp add: Comm_init_def)

lemma onSocketStateChanges_Connected:
  "\<exists>s'. onSocketStateChanges e ConnectedState s = Inr ((), s')
         \<and> m_loginState s' = LoginRequested
         \<and> incomingSentence s' = clear e (incomingSentence s)
         \<and> incomingWord s' = incomingWord s
         \<and> incomingWordSize s' = incomingWordSize s"
  by (cases "loginRequest_slots e (m_Username s, m_Password s)")
     (simp add: onSocketStateChanges_def sendSentence_def sendWord_def writeLength_def
        seq_def sock_write_def setLoginState_def emit_def login_sentence_def
        QSentence_empty_def QBasicAttrib_empty_def Let_def word_sless_alt)

text \<open>
  Claim C3, as the code has it. \<open>closeCom(true)\<close> on a connected socket aborts and closes
  it, which leaves it unconnected, and emits \<open>comStateChanged(Unconnected)\<close> and a
  \<open>comError\<close>; in every other socket state it does nothing, so the socket stays in the
  state it was in. It does not reset the login state or the pending sentence: they keep
  their values while the socket is down (which is why \<open>isLoged\<close> asks for the connection
  too), and the handler of the next \<open>ConnectedState\<close> sets the login state to
  \<open>LoginRequested\<close> and clears the sentence, whatever they were.
\<close>

theorem closeCom_force:
  "(sock_state s = ConnectedState \<longrightarrow>
      sock_state (closeCom True s) = UnconnectedState
      \<and> emitted (closeCom True s) =
          emitted s @ [comStateChanged Unconnected, comError ''forced abort/close on socket''])
   \<and> (sock_state s \<noteq> ConnectedState \<longrightarrow> closeCom True s = s)
   \<and> m_loginState (closeCom True s) = m_loginState s
   \<and> incomingSentence (closeCom True s) = incomingSentence s
   \<and> (\<exists>t'. onSocketStateChanges e ConnectedState t = Inr ((), t')
          \<and> m_loginState t' = LoginRequested
          \<and> incomingSentence t' = clear e (incomingSentence t))"
  using onSocketStateChanges_Connected[of e t]
  by (auto simp add: closeCom_def isConnected_def sock_close_def sock_abort_def emit_def)

text \<open>
  A connected socket that is logged in, a socket that is looking up the host, and the
  next connection of the former.
\<close>

theorem closeCom_force_witness:
  "sock_state (Comm_init\<lparr>sock_state := ConnectedState, m_loginState := LogedIn\<rparr>) = ConnectedState
   \<and> closeCom True (Comm_init\<lparr>sock_state := ConnectedState, m_loginState := LogedIn\<rparr>) =
       Comm_init\<lparr>sock_state := UnconnectedState, m_loginState := LogedIn,
                 emitted := [comStateChanged Unconnected, comError ''forced abort/close on socket'']\<rparr>
   \<and> sock_state (Comm_init\<lparr>sock_state := HostLookupState\<rparr>) \<noteq> ConnectedState
   \<and> closeCom True (Comm_init\<lparr>sock_state := HostLookupState\<rparr>) = Comm_init\<lparr>sock_state := HostLookupState\<rparr>
   \<and> m_loginState (result_state (onSocketStateChanges env_example ConnectedState
        (Comm_init\<lparr>sock_state := ConnectedState, m_loginState := LogedIn\<rparr>))) = LoginRequested
   \<and> incomingSentence (result_state (onSocketStateChanges env_example ConnectedState
        (Comm_init\<lparr>sock_state := ConnectedState, m_loginState := LogedIn\<rparr>))) = QSentence_empty"
  using closeCom_force[of "Comm_init\<lparr>sock_state := ConnectedState, m_loginState := LogedIn\<rparr>"
      env_example "Comm_init\<lparr>sock_state := ConnectedState, m_loginState := LogedIn\<rparr>"]
    closeCom_force[of "Comm_init\<lparr>sock_state := HostLookupState\<rparr>"
      env_example "Comm_init\<lparr>sock_state := ConnectedState, m_loginState := LogedIn\<rparr>"]
  by (auto simp add: Comm_init_def closeCom_def isConnected_def sock_close_def sock_abort_def
      emit_def result_state_def env_example_def)

text \<open>
  The claim as stated fails twice: from \<open>ConnectingState\<close> a forced close leaves the
  socket connecting, and from a connected, logged-in state it leaves the login state
  \<open>LogedIn\<close>.
\<close>

theorem closeCom_force_counterexample:
  "sock_state (closeCom True (Comm_init\<lparr>sock_state := ConnectingState\<rparr>)) = ConnectingState
   \<and> m_loginState (closeCom True (Comm_init\<lparr>sock_state := ConnectedState,
        m_loginState := LogedIn\<rparr>)) = LogedIn"
  by (simp add: closeCom_def isConnected_def sock_close_def sock_abort_def emit_def Comm_init_def)

text \<open>
  The pending word is another matter. The constructor sets \<open>incomingWordSize\<close> to -1 and
  leaves \<open>incomingWord\<close> empty; after that only \<open>readWord\<close>, \<open>readSentence\<close> and \<open>doLogin\<close>
  write them, at the end of a word or of a login step. Neither \<open>closeCom\<close> nor the handler
  of \<open>ConnectedState\<close> does, so a word that a forced close cuts short is still pending
  when the next connection delivers its first bytes.
\<close>

lemma pending_word_survives_reconnect:
  "incomingWord (closeCom True s) = incomingWord s
   \<and> incomingWordSize (closeCom True s) = incomingWordSize s
   \<and> (\<exists>t'. onSocketStateChanges e ConnectedState t = Inr ((), t')
          \<and> incomingWord t' = incomingWord t
          \<and> incomingWordSize t' = incomingWordSize t)"
  using onSocketStateChanges_Connected[of e t]
  by (auto simp add: closeCom_def isConnected_def sock_close_def sock_abort_def emit_def)

section \<open>Writing words\<close>

subsection \<open>What \<open>sendWord\<close> writes\<close>

lemma sint_of_nat_small: "n < 2 ^ 31 \<Longrightarrow> sint (of_nat n :: cint) = int n"
proof -
  assume n: "n < 2 ^ 31"
  have "sint (of_nat n :: cint) = signed_take_bit 31 (int n)"
    by (simp add: signed_of_nat)
  also have "\<dots> = int n"
  proof (rule signed_take_bit_int_eq_self)
    show "- (2 ^ 31) \<le> int n" by (rule order_trans[of _ 0]) simp_all
    show "int n < 2 ^ 31" using n by (metis of_nat_less_iff of_nat_numeral of_nat_power)
  qed
  finally show ?thesis .
qed

lemma sendWord_wire:
  "sendWord bo w s =
     (case wire_word bo w of
        None \<Rightarrow> Inl (WordTooLong, s)
      | Some bs \<Rightarrow> Inr ((), s\<lparr>sock_out := sock_out s @ bs\<rparr>))"
  by (simp add: wire_word_def sendWord_def writeLength_def seq_def sock_write_def Comm_init_def Let_def)

lemma wire_word_Some:
  "length w < 0x10000000 \<Longrightarrow> \<exists>bs. wire_word bo w = Some bs"
proof -
  assume l: "length w < 0x10000000"
  then have "sint (of_nat (length w) :: cint) = int (length w)"
    by (intro sint_of_nat_small) simp
  then have "(of_nat (length w) :: cint) <s 0x10000000"
    using l by (simp add: word_sless_alt)
  then show ?thesis
    by (simp add: wire_word_def sendWord_def writeLength_def seq_def sock_write_def Let_def)
qed

lemma wire_word_short:
  "length w < 0x80 \<Longrightarrow> wire_word Q_LITTLE_ENDIAN w = Some (of_nat (length w) # toLatin1 w)"
proof -
  assume l: "length w < 0x80"
  then have "sint (of_nat (length w) :: cint) = int (length w)"
    by (intro sint_of_nat_small) simp
  then have "(of_nat (length w) :: cint) <s 0x80"
    using l by (simp add: word_sless_alt)
  then show ?thesis
    using l
    by (simp add: wire_word_def sendWord_def writeLength_def seq_def sock_write_def Let_def
        int_bytes_def Comm_init_def unsigned_of_nat take_bit_nat_eq_self)
qed

section \<open>Reading words\<close>

subsection \<open>One call of \<open>readWord\<close> on one newly arrived byte\<close>

lemma readWord_length_byte:
  assumes "incomingWordSize s \<le>s 0" and "sock_in s = [c]" and "\<not> bit c 7" and "c \<noteq> 0"
  shows "readWord bo s = Inr (- 1, s\<lparr>sock_in := [], incomingWordSize := scast c\<rparr>)"
proof -
  have s_eq: "s = s\<lparr>sock_in := [c]\<rparr>" using assms(2) by simp
  have rl: "readLength bo s = Inr (scast c, s\<lparr>sock_in := []\<rparr>)"
    using readLength_one[where c=c and bo=bo and t=s and rest="[]", OF assms(3)] s_eq by simp
  have nz: "(scast c :: cint) \<noteq> 0"
  proof
    assume z: "(scast c :: cint) = 0"
    have "c = 0"
      unfolding byte_eq_iff
    proof (intro allI impI)
      fix n :: nat assume n: "n < 8"
      have "bit (scast c :: cint) n = bit c n" using n by (cases "n = 7") (simp_all add: bit_simps min_def)
      then show "bit c n = bit (0::byte) n" using z by simp
    qed
    then show False using assms(4) by simp
  qed
  have nn: "(scast c :: cint) \<noteq> - 1 \<and> (scast c :: cint) \<noteq> - 2 \<and> (scast c :: cint) \<noteq> - 3 \<and> (scast c :: cint) \<noteq> - 4"
    using decoded_one_bound[OF assms(3)] by (auto simp add: word_sle_eq)
  show ?thesis
    using assms(1) rl nz nn
    by (simp add: readWord_def readWord_payload_def sock_read_def Let_def)
qed

lemma readWord_payload_byte:
  assumes "\<not> incomingWordSize s \<le>s 0" and "sock_in s = [b]"
  shows "readWord bo s =
           Inr (if incomingWordSize s = 1 then 1 else - 1,
                s\<lparr>sock_in := [], incomingWordSize := incomingWordSize s - 1,
                  incomingWord := incomingWord s @ [b]\<rparr>)"
proof -
  have pos: "0 < sint (incomingWordSize s)" using assms(1) by (simp add: word_sle_eq)
  then have "nat (sint (incomingWordSize s)) = Suc (nat (sint (incomingWordSize s)) - 1)" by simp
  then have tk: "take (nat (sint (incomingWordSize s))) [b] = [b]"
       and dr: "drop (nat (sint (incomingWordSize s))) [b] = []"
    by (metis take_Suc_Cons take.simps(1) take_0 take_Nil, metis drop_Suc_Cons drop_Nil)
  show ?thesis
    using assms tk dr
    by (simp add: readWord_def readWord_payload_def sock_read_def Let_def)
qed

lemma hello_bytes: "toLatin1 ''hello'' = [0x68, 0x65, 0x6c, 0x6c, 0x6f]"
  by (simp add: toLatin1_def)

subsection \<open>Resuming a word\<close>

text \<open>
  Claim C5. From a state with no word pending (\<open>incomingWordSize\<close> at -1, nothing
  buffered), the encoded word for ``hello'', the length byte 5 and five payload bytes,
  is delivered one byte per call of \<open>readWord\<close>: the first five calls return -1 and the
  sixth returns 1, \<open>incomingWord\<close> grows by one byte at each payload call and loses none,
  and the final state is the one a single call reaches when all six bytes are there at
  once, with \<open>incomingWord\<close> holding ``hello''. This holds for both byte orders.
\<close>

theorem readWord_resumable_hello:
  assumes "incomingWordSize s = - 1" and "incomingWord s = []" and "sock_in s = []"
  shows "poll_bytes bo (5 # toLatin1 ''hello'') s =
           ([(- 1, []), (- 1, toLatin1 ''h''), (- 1, toLatin1 ''he''), (- 1, toLatin1 ''hel''),
             (- 1, toLatin1 ''hell''), (1, toLatin1 ''hello'')],
            s\<lparr>incomingWord := toLatin1 ''hello'', incomingWordSize := 0\<rparr>)
         \<and> readWord bo (deliver (5 # toLatin1 ''hello'') s) =
             Inr (1, s\<lparr>incomingWord := toLatin1 ''hello'', incomingWordSize := 0\<rparr>)"
proof -
  let ?s1 = "s\<lparr>sock_in := [], incomingWordSize := 5\<rparr>"
  let ?s2 = "s\<lparr>sock_in := [], incomingWord := [0x68], incomingWordSize := 4\<rparr>"
  let ?s3 = "s\<lparr>sock_in := [], incomingWord := [0x68, 0x65], incomingWordSize := 3\<rparr>"
  let ?s4 = "s\<lparr>sock_in := [], incomingWord := [0x68, 0x65, 0x6c], incomingWordSize := 2\<rparr>"
  let ?s5 = "s\<lparr>sock_in := [], incomingWord := [0x68, 0x65, 0x6c, 0x6c], incomingWordSize := 1\<rparr>"
  let ?s6 = "s\<lparr>sock_in := [], incomingWord := [0x68, 0x65, 0x6c, 0x6c, 0x6f], incomingWordSize := 0\<rparr>"
  have w: "incomingWordSize s \<le>s 0" using assms(1) by (simp add: word_sle_eq)
  have b5: "\<not> bit (5::byte) 7" by simp
  have p0: "readWord bo (deliver [5] s) = Inr (- 1, ?s1)"
    using readWord_length_byte[where s="deliver [5] s" and c=5 and bo=bo] w b5 assms(3)
    by (simp add: deliver_def)
  have p1: "readWord bo (deliver [0x68] ?s1) = Inr (- 1, ?s2)"
    using readWord_payload_byte[where s="deliver [0x68] ?s1" and b="0x68" and bo=bo] assms(2)
    by (simp add: deliver_def word_sle_eq)
  have p2: "readWord bo (deliver [0x65] ?s2) = Inr (- 1, ?s3)"
    using readWord_payload_byte[where s="deliver [0x65] ?s2" and b="0x65" and bo=bo]
    by (simp add: deliver_def word_sle_eq)
  have p3: "readWord bo (deliver [0x6c] ?s3) = Inr (- 1, ?s4)"
    using readWord_payload_byte[where s="deliver [0x6c] ?s3" and b="0x6c" and bo=bo]
    by (simp add: deliver_def word_sle_eq)
  have p4: "readWord bo (deliver [0x6c] ?s4) = Inr (- 1, ?s5)"
    using readWord_payload_byte[where s="deliver [0x6c] ?s4" and b="0x6c" and bo=bo]
    by (simp add: deliver_def word_sle_eq)
  have p5: "readWord bo (deliver [0x6f] ?s5) = Inr (1, ?s6)"
    using readWord_payload_byte[where s="deliver [0x6f] ?s5" and b="0x6f" and bo=bo]
    by (simp add: deliver_def word_sle_eq)
  have t5: "poll_bytes bo [0x6f] ?s5 = ([(1, [0x68, 0x65, 0x6c, 0x6c, 0x6f])], ?s6)"
    unfolding poll_bytes.simps p5 by simp
  have t4: "poll_bytes bo [0x6c, 0x6f] ?s4 =
      ([(- 1, [0x68, 0x65, 0x6c, 0x6c]), (1, [0x68, 0x65, 0x6c, 0x6c, 0x6f])], ?s6)"
    unfolding poll_bytes.simps(2)[of bo "0x6c" "[0x6f]"] p4 by (simp add: t5 del: poll_bytes.simps)
  have t3: "poll_bytes bo [0x6c, 0x6c, 0x6f] ?s3 =
      ([(- 1, [0x68, 0x65, 0x6c]), (- 1, [0x68, 0x65, 0x6c, 0x6c]),
        (1, [0x68, 0x65, 0x6c, 0x6c, 0x6f])], ?s6)"
    unfolding poll_bytes.simps(2)[of bo "0x6c" "[0x6c, 0x6f]"] p3 by (simp add: t4 del: poll_bytes.simps)
  have t2: "poll_bytes bo [0x65, 0x6c, 0x6c, 0x6f] ?s2 =
      ([(- 1, [0x68, 0x65]), (- 1, [0x68, 0x65, 0x6c]), (- 1, [0x68, 0x65, 0x6c, 0x6c]),
        (1, [0x68, 0x65, 0x6c, 0x6c, 0x6f])], ?s6)"
    unfolding poll_bytes.simps(2)[of bo "0x65"] p2 by (simp add: t3 del: poll_bytes.simps)
  have t1: "poll_bytes bo [0x68, 0x65, 0x6c, 0x6c, 0x6f] ?s1 =
      ([(- 1, [0x68]), (- 1, [0x68, 0x65]), (- 1, [0x68, 0x65, 0x6c]),
        (- 1, [0x68, 0x65, 0x6c, 0x6c]), (1, [0x68, 0x65, 0x6c, 0x6c, 0x6f])], ?s6)"
    unfolding poll_bytes.simps(2)[of bo "0x68"] p1 by (simp add: t2 del: poll_bytes.simps)
  have t0: "poll_bytes bo [5, 0x68, 0x65, 0x6c, 0x6c, 0x6f] s =
      ([(- 1, []), (- 1, [0x68]), (- 1, [0x68, 0x65]), (- 1, [0x68, 0x65, 0x6c]),
        (- 1, [0x68, 0x65, 0x6c, 0x6c]), (1, [0x68, 0x65, 0x6c, 0x6c, 0x6f])], ?s6)"
    unfolding poll_bytes.simps(2)[of bo 5] p0 using assms(2) by (simp add: t1 del: poll_bytes.simps)
  have s6: "?s6 = s\<lparr>incomingWord := [0x68, 0x65, 0x6c, 0x6c, 0x6f], incomingWordSize := 0\<rparr>"
    using assms(3) by simp
  have rl: "readLength bo (deliver [5, 0x68, 0x65, 0x6c, 0x6c, 0x6f] s) =
      Inr (5, s\<lparr>sock_in := [0x68, 0x65, 0x6c, 0x6c, 0x6f]\<rparr>)"
    using readLength_one[where c=5 and bo=bo and t=s and rest="[0x68, 0x65, 0x6c, 0x6c, 0x6f]", OF b5]
      assms(3) by (simp add: deliver_def)
  have once: "readWord bo (deliver [5, 0x68, 0x65, 0x6c, 0x6c, 0x6f] s) = Inr (1, ?s6)"
    using w rl assms(2)
    by (simp add: readWord_def readWord_payload_def sock_read_def Let_def deliver_def)
  show ?thesis
    unfolding hello_bytes using t0 once s6 by (simp add: toLatin1_def)
qed

text \<open>
  From the constructor's state on a little-endian build, where \<open>5 # "hello"\<close> is also
  what \<open>sendWord\<close> writes for the word.
\<close>

theorem readWord_resumable_hello_witness:
  "incomingWordSize Comm_init = - 1 \<and> incomingWord Comm_init = [] \<and> sock_in Comm_init = []
   \<and> poll_bytes Q_LITTLE_ENDIAN (5 # toLatin1 ''hello'') Comm_init =
        ([(- 1, []), (- 1, toLatin1 ''h''), (- 1, toLatin1 ''he''), (- 1, toLatin1 ''hel''),
          (- 1, toLatin1 ''hell''), (1, toLatin1 ''hello'')],
         Comm_init\<lparr>incomingWord := toLatin1 ''hello'', incomingWordSize := 0\<rparr>)
   \<and> readWord Q_LITTLE_ENDIAN (deliver (5 # toLatin1 ''hello'') Comm_init) =
        Inr (1, Comm_init\<lparr>incomingWord := toLatin1 ''hello'', incomingWordSize := 0\<rparr>)
   \<and> wire_word Q_LITTLE_ENDIAN ''hello'' = Some (5 # toLatin1 ''hello'')"
  using readWord_resumable_hello[of Comm_init Q_LITTLE_ENDIAN]
  by (simp add: Comm_init_def wire_word_short)

subsection \<open>A length prefix split across two deliveries\<close>

text \<open>
  Claim C2 asks that a multi-byte length prefix whose first byte has arrived alone be
  reported as a recoverable condition and completed by a later call. The code does
  neither. With only \<open>0x80\<close> buffered, \<open>readLength\<close> consumes the byte and returns -2, and
  \<open>readWord\<close> throws ``Incomplete word length arrived.''; the byte is kept nowhere. A
  caller that survives the throw and calls again when the rest of the prefix \<open>80 85\<close>
  (length 133) and the first payload byte \<open>41\<close> have arrived gets \<open>85 41\<close> read as a
  prefix of its own, for a word of \<open>0x541\<close> bytes; as after every complete multi-byte
  prefix, the call then ends in the second free of the block of \<open>lengthData\<close>, not in a
  return.
\<close>

theorem incomplete_length_prefix_throws:
  "readWord bo (deliver [0x80] Comm_init) =
     Inl (IncompleteWordLength, Comm_init\<lparr>incomingWordSize := - 2\<rparr>)
   \<and> retMessageLength bo (deliver [0x85, 0x41] (Comm_init\<lparr>incomingWordSize := - 2\<rparr>)) =
     Some 0x541
   \<and> readWord bo (deliver [0x85, 0x41] (Comm_init\<lparr>incomingWordSize := - 2\<rparr>)) =
     Inl (HeapFault, Comm_init\<lparr>incomingWordSize := - 2\<rparr>)"
  by (cases bo)
     (simp_all add: readWord_def readWord_payload_def readLength_def readLength_prefix_def
        retMessageLength_def free_block_def sock_read1_def sock_read_def
        deliver_def Let_def bytes_int_def Comm_init_def word_sle_eq)

section \<open>What reading leaves untouched\<close>

text \<open>
  \<open>readLength\<close> changes nothing but what the socket has buffered; \<open>readWord\<close> and
  \<open>readSentence\<close>, whether they return or not, emit no signal, keep the login state and
  write nothing to the socket.
\<close>

lemma readLength_frame: "\<exists>xs. result_state (readLength bo s) = s\<lparr>sock_in := xs\<rparr>"
proof -
  have "snd (readLength_prefix bo s) =
          s\<lparr>sock_in := sock_in (snd (readLength_prefix bo s))\<rparr>"
    by (auto simp add: readLength_prefix_def sock_read1_def Let_def split: list.splits)
  moreover have "result_state (readLength bo s) = snd (readLength_prefix bo s)"
    by (auto simp add: readLength_def result_state_def Let_def
        split: prod.splits sum.splits option.splits)
  ultimately show ?thesis by metis
qed

lemma readWord_frame:
  "emitted (result_state (readWord bo s)) = emitted s
   \<and> m_loginState (result_state (readWord bo s)) = m_loginState s
   \<and> sock_out (result_state (readWord bo s)) = sock_out s"
proof -
  obtain xs where fr: "result_state (readLength bo s) = s\<lparr>sock_in := xs\<rparr>"
    using readLength_frame[of bo s] by blast
  show ?thesis
  proof (cases "readLength bo s")
    case (Inl a)
    obtain err s0 where a: "a = (err, s0)" by (cases a)
    have s0: "s0 = s\<lparr>sock_in := xs\<rparr>" using fr Inl a by (simp add: result_state_def)
    show ?thesis
      using Inl a s0
      by (simp add: readWord_def readWord_payload_def sock_read_def Let_def result_state_def)
  next
    case (Inr b)
    obtain n s0 where b: "b = (n, s0)" by (cases b)
    have s0: "s0 = s\<lparr>sock_in := xs\<rparr>" using fr Inr b by (simp add: result_state_def)
    show ?thesis
      using Inr b s0
      by (simp add: readWord_def readWord_payload_def sock_read_def Let_def result_state_def)
  qed
qed

lemma readSentence_frame:
  "emitted (result_state (readSentence e s)) = emitted s
   \<and> m_loginState (result_state (readSentence e s)) = m_loginState s
   \<and> sock_out (result_state (readSentence e s)) = sock_out s"
proof (induction e s rule: readSentence.induct)
  case (1 e s)
  show ?case
  proof (cases "readWord (Q_BYTE_ORDER e) s")
    case (Inl a)
    then show ?thesis
      using readWord_frame[of "Q_BYTE_ORDER e" s]
      by (cases a) (simp add: readSentence.simps[of e s] result_state_def)
  next
    case (Inr b)
    obtain r s1 where b: "b = (r, s1)" by (cases b)
    have f: "emitted s1 = emitted s \<and> m_loginState s1 = m_loginState s \<and> sock_out s1 = sock_out s"
      using readWord_frame[of "Q_BYTE_ORDER e" s] Inr b by (simp add: result_state_def)
    show ?thesis
    proof (cases "0 \<le>s r \<and> incomingWord s1 \<noteq> []")
      case True
      then show ?thesis
        using "1.IH"[OF Inr b[symmetric]] Inr b f
        by (simp add: readSentence.simps[of e s])
    next
      case False
      then show ?thesis
        using Inr b f by (auto simp add: readSentence.simps[of e s] result_state_def)
    qed
  qed
qed

section \<open>Sequences of sends\<close>

lemma seq_Inr: "seq (Inr (x, s)) f = f x s"
  by (simp add: seq_def)

lemma seq_sendWord:
  "seq (sendWord bo w s) f =
     (case wire_word bo w of
        None \<Rightarrow> Inl (WordTooLong, s)
      | Some bs \<Rightarrow> f () (s\<lparr>sock_out := sock_out s @ bs\<rparr>))"
  by (simp add: sendWord_wire seq_def split: option.splits)

lemma seq_sendWords:
  "seq (sendWords bo ws s) f =
     (case wire_words bo ws of
        (bs, ok) \<Rightarrow>
          if ok then f () (s\<lparr>sock_out := sock_out s @ bs\<rparr>)
          else Inl (WordTooLong, s\<lparr>sock_out := sock_out s @ bs\<rparr>))"
proof (induction ws arbitrary: s)
  case Nil
  then show ?case by (simp add: seq_def)
next
  case (Cons w ws)
  have "seq (sendWords bo (w # ws) s) f =
          seq (sendWord bo w s) (\<lambda>_ s1. seq (sendWords bo ws s1) f)"
    by (cases "sendWord bo w s") (auto simp add: seq_def)
  then show ?case
    by (simp add: seq_sendWord Cons.IH split: option.splits prod.splits)
qed

lemmas sendSentence_wire = sendSentence_def seq_sendWord seq_sendWords Let_def

lemma wire_word_empty: "wire_word bo [] = Some [0]"
  by (cases bo)
     (simp_all add: wire_word_def sendWord_def writeLength_def seq_def sock_write_def
        int_bytes_def toLatin1_def Comm_init_def word_sless_alt Let_def)

section \<open>The login machine\<close>

lemma doLogin_emits:
  "\<exists>evs. emitted (result_state (doLogin e s)) = emitted s @ evs
         \<and> (\<forall>sent. comReceive sent \<notin> set evs)"
proof (cases "m_loginState s")
  case NoLoged
  then show ?thesis by (simp add: doLogin_def result_state_def)
next
  case LoginRequested
  then show ?thesis
    by (auto simp add: doLogin_def result_state_def seq_sendWord setLoginState_def emit_def
        sock_close_def Let_def split: option.splits)
next
  case UserPassSended
  then show ?thesis
    by (auto simp add: doLogin_def result_state_def setLoginState_def emit_def
        sock_close_def Let_def)
next
  case LogedIn
  then show ?thesis by (simp add: doLogin_def result_state_def)
qed

text \<open>The definitions that evaluate the examples.\<close>

lemmas login_example_eval =
  doLogin_def awaiting_challenge_def challenge_sentence_def Comm_init_def attribute_def
  count_attr_def env_example_def seq_sendWord wire_word_short wire_word_empty
  QMD5_init_def QMD5_append_def QMD5_finish_def strlen_def Let_def
  hexval_def toLatin1_def setLoginState_def emit_def result_state_def

lemmas readSentence_example_eval =
  onReadyRead_def readSentence.simps readWord_def readWord_payload_def readLength_def
  readLength_prefix_def free_block_def bytes_int_int_bytes
  sock_read1_def sock_read_def deliver_def seq_def Let_def word_sle_eq

subsection \<open>Who receives a completed sentence\<close>

text \<open>
  Claim C6. Whatever \<open>onReadyRead\<close> emits is appended to the signals emitted so far. If a
  \<open>comReceive\<close> is among the new signals, the login state was \<open>LogedIn\<close> when the call
  began (\<open>readSentence\<close> does not change it, so it was \<open>LogedIn\<close> at the delivery) and is
  \<open>LogedIn\<close> after it. While the login state is not \<open>LogedIn\<close>, no \<open>comReceive\<close> is emitted,
  and a sentence that \<open>readSentence\<close> completes is handed to \<open>doLogin\<close>: the call is
  \<open>doLogin\<close> on the state \<open>readSentence\<close> left, followed by the reset of the completion
  flag. This covers the runs that throw.
\<close>

theorem comReceive_only_when_LogedIn:
  "\<exists>evs. emitted (result_state (onReadyRead e s)) = emitted s @ evs
      \<and> ((\<exists>sent. comReceive sent \<in> set evs) \<longrightarrow>
            m_loginState s = LogedIn \<and> m_loginState (result_state (onReadyRead e s)) = LogedIn)
      \<and> (m_loginState s \<noteq> LogedIn \<longrightarrow>
            (\<forall>sent. comReceive sent \<notin> set evs)
            \<and> (\<forall>s1. readSentence e s = Inr ((), s1) \<and> sentenceCompleted s1 \<longrightarrow>
                  onReadyRead e s =
                    seq (doLogin e s1) (\<lambda>_ s2. Inr ((), s2\<lparr>sentenceCompleted := False\<rparr>))))"
proof (cases "readSentence e s")
  case (Inl a)
  obtain err s1 where a: "a = (err, s1)" by (cases a)
  have "emitted s1 = emitted s"
    using readSentence_frame[of e s] Inl a by (simp add: result_state_def)
  then show ?thesis
    using Inl a by (simp add: onReadyRead_def seq_def result_state_def)
next
  case (Inr b)
  obtain u s1 where b: "b = (u, s1)" by (cases b)
  have f: "emitted s1 = emitted s" "m_loginState s1 = m_loginState s"
    using readSentence_frame[of e s] Inr b by (simp_all add: result_state_def)
  show ?thesis
  proof (cases "sentenceCompleted s1")
    case False
    then show ?thesis
      using Inr b f by (simp add: onReadyRead_def seq_def result_state_def)
  next
    case True
    show ?thesis
    proof (cases "m_loginState s1 = LogedIn")
      case True
      then show ?thesis
        using Inr b f \<open>sentenceCompleted s1\<close>
        by (simp add: onReadyRead_def seq_def result_state_def emit_def Let_def)
    next
      case False
      obtain evs where evs: "emitted (result_state (doLogin e s1)) = emitted s1 @ evs"
        "\<forall>sent. comReceive sent \<notin> set evs"
        using doLogin_emits[of e s1] by blast
      have rs: "emitted (result_state (seq (doLogin e s1)
              (\<lambda>_ s2. Inr ((), s2\<lparr>sentenceCompleted := False\<rparr>)))) =
            emitted (result_state (doLogin e s1))"
        by (cases "doLogin e s1") (auto simp add: seq_def result_state_def)
      have eq: "onReadyRead e s =
          seq (doLogin e s1) (\<lambda>_ s2. Inr ((), s2\<lparr>sentenceCompleted := False\<rparr>))"
        using Inr b False \<open>sentenceCompleted s1\<close> by (simp add: onReadyRead_def seq_def)
      show ?thesis
        apply (rule exI[of _ evs])
        using eq rs evs f False Inr b by auto
    qed
  qed
qed

text \<open>
  An empty word arrives and completes the pending sentence: logged in, the sentence is
  delivered; awaiting the challenge, it goes to \<open>doLogin\<close>, which here rejects it.
\<close>

theorem comReceive_only_when_LogedIn_witness:
  "emitted (result_state (onReadyRead env_example
      (deliver [0] (Comm_init\<lparr>sock_state := ConnectedState, m_loginState := LogedIn,
                              incomingSentence := login_sentence\<rparr>)))) =
     [comReceive login_sentence]
   \<and> m_loginState (Comm_init\<lparr>sock_state := ConnectedState, m_loginState := LogedIn,
                              incomingSentence := login_sentence\<rparr>) = LogedIn
   \<and> m_loginState (awaiting_challenge ''admin'' ''secret'' ''0011'') \<noteq> LogedIn
   \<and> emitted (result_state (onReadyRead env_example
        (deliver [0] (awaiting_challenge ''admin'' ''secret'' ''0011'')))) =
     [comError ''Unknown remote login sentence format: 'ret' field doesn't contains 32 characters'',
      loginStateChanged NoLoged]"
  using comReceive_only_when_LogedIn[of env_example
      "deliver [0] (Comm_init\<lparr>sock_state := ConnectedState, m_loginState := LogedIn,
                              incomingSentence := login_sentence\<rparr>)"]
    comReceive_only_when_LogedIn[of env_example
      "deliver [0] (awaiting_challenge ''admin'' ''secret'' ''0011'')"]
  by (simp add: readSentence_example_eval login_example_eval emit_def sock_close_def)

subsection \<open>A challenge of the wrong length\<close>

text \<open>
  Claim C7, as the code has it. In the \<open>LoginRequested\<close> state, a sentence whose \<open>ret\<close>
  attribute does not have 32 characters makes \<open>doLogin\<close> return after emitting one
  \<open>comError\<close> and the change of the login state to \<open>NoLoged\<close>; the socket is closed and
  nothing is written to it. The message is the one of the first check that fails. For a
  reply marked done whose only attribute is a \<open>ret\<close> that is not empty, it is the message
  about the 32 characters, which differs from the messages of the other three checks.
  A \<open>ret\<close> of length 0 does not reach that check: the check before it takes an empty
  \<open>ret\<close> for a missing one.
\<close>

theorem doLogin_wrong_length_ret:
  assumes "m_loginState s = LoginRequested"
      and "length (attribute (attributes (incomingSentence s)) ''ret'') \<noteq> 32"
  shows "\<exists>msg s'. doLogin e s = Inr ((), s')
           \<and> msg = (if getResultType (incomingSentence s) \<noteq> Done then ''Cannot login''
                    else if count_attr (attributes (incomingSentence s)) \<noteq> 1
                    then ''Unknown remote login sentence format: didn't receive anything''
                    else if attribute (attributes (incomingSentence s)) ''ret'' = []
                    then ''Unknown remote login sentence format: Doesn't receive 'ret' namefield''
                    else ''Unknown remote login sentence format: 'ret' field doesn't contains 32 characters'')
           \<and> (getResultType (incomingSentence s) = Done
                \<and> count_attr (attributes (incomingSentence s)) = 1
                \<and> attribute (attributes (incomingSentence s)) ''ret'' \<noteq> [] \<longrightarrow>
                  msg = ''Unknown remote login sentence format: 'ret' field doesn't contains 32 characters''
                  \<and> msg \<noteq> ''Cannot login''
                  \<and> msg \<noteq> ''Unknown remote login sentence format: didn't receive anything''
                  \<and> msg \<noteq> ''Unknown remote login sentence format: Doesn't receive 'ret' namefield'')
           \<and> emitted s' = emitted s @ [comError msg, loginStateChanged NoLoged]
           \<and> m_loginState s' = NoLoged
           \<and> sock_state s' = UnconnectedState
           \<and> sock_out s' = sock_out s"
  using assms
  by (simp add: doLogin_def setLoginState_def emit_def sock_close_def Let_def)

text \<open>Challenges of 31 and of 33 characters.\<close>

theorem doLogin_wrong_length_ret_witness:
  "m_loginState (awaiting_challenge ''admin'' ''secret'' ''0011223344556677889900112233445'') = LoginRequested
   \<and> length (attribute (attributes (incomingSentence
        (awaiting_challenge ''admin'' ''secret'' ''0011223344556677889900112233445''))) ''ret'') = 31
   \<and> doLogin env_example (awaiting_challenge ''admin'' ''secret'' ''0011223344556677889900112233445'') =
       Inr ((), (awaiting_challenge ''admin'' ''secret'' ''0011223344556677889900112233445'')
         \<lparr>sock_state := UnconnectedState, incomingSentence := QSentence_empty,
          m_loginState := NoLoged,
          emitted := [comError ''Unknown remote login sentence format: 'ret' field doesn't contains 32 characters'',
                      loginStateChanged NoLoged]\<rparr>)
   \<and> length (attribute (attributes (incomingSentence
        (awaiting_challenge ''admin'' ''secret'' ''001122334455667788990011223344556''))) ''ret'') = 33
   \<and> emitted (result_state (doLogin env_example (awaiting_challenge ''admin'' ''secret'' ''001122334455667788990011223344556''))) =
       [comError ''Unknown remote login sentence format: 'ret' field doesn't contains 32 characters'',
        loginStateChanged NoLoged]
   \<and> sock_out (result_state (doLogin env_example (awaiting_challenge ''admin'' ''secret'' ''001122334455667788990011223344556''))) = []"
  using doLogin_wrong_length_ret[of "awaiting_challenge ''admin'' ''secret'' ''0011223344556677889900112233445''" env_example]
    doLogin_wrong_length_ret[of "awaiting_challenge ''admin'' ''secret'' ''001122334455667788990011223344556''" env_example]
  by (simp add: login_example_eval sock_close_def)

text \<open>
  The claim as stated fails at length 0: a reply whose \<open>ret\<close> attribute is there but
  empty gets the message of a reply that has no \<open>ret\<close> attribute at all, not a message
  of its own.
\<close>

theorem doLogin_empty_ret_counterexample:
  "length (attribute (attributes (incomingSentence
      (awaiting_challenge ''admin'' ''secret'' ''''))) ''ret'') = 0
   \<and> emitted (result_state (doLogin env_example (awaiting_challenge ''admin'' ''secret'' ''''))) =
       [comError ''Unknown remote login sentence format: Doesn't receive 'ret' namefield'',
        loginStateChanged NoLoged]
   \<and> map_of (entries (attributes (incomingSentence
        ((awaiting_challenge ''admin'' ''secret'' '''')
           \<lparr>incomingSentence := (challenge_sentence '''')
              \<lparr>attributes := \<lparr>toWords = [''=id=7''], entries = [(''id'', ''7'')]\<rparr>\<rparr>\<rparr>)))) ''ret'' = None
   \<and> emitted (result_state (doLogin env_example
        ((awaiting_challenge ''admin'' ''secret'' '''')
           \<lparr>incomingSentence := (challenge_sentence '''')
              \<lparr>attributes := \<lparr>toWords = [''=id=7''], entries = [(''id'', ''7'')]\<rparr>\<rparr>\<rparr>))) =
       [comError ''Unknown remote login sentence format: Doesn't receive 'ret' namefield'',
        loginStateChanged NoLoged]"
  by (simp add: login_example_eval sock_close_def)

subsection \<open>The response to a challenge\<close>

text \<open>Decoding hex and encoding it again gives the digits back, in lower case.\<close>

lemma hexval_less: "hexval c < 16"
  by (auto simp add: hexval_def Let_def)

lemma char_of_lower_hex:
  "char_of (97::nat) = CHR ''a''" "char_of (98::nat) = CHR ''b''" "char_of (99::nat) = CHR ''c''"
  "char_of (100::nat) = CHR ''d''" "char_of (101::nat) = CHR ''e''" "char_of (102::nat) = CHR ''f''"
  by (rule of_char_eqI[where ?'a=nat], simp)+

lemma hexdigit_hexval:
  "c \<in> set ''0123456789abcdefABCDEF'' \<Longrightarrow> hexdigit (hexval c) = hex_lower c"
  by (auto simp add: hexval_def hexdigit_def hex_lower_def char_of_lower_hex)

lemma hex_pair:
  assumes "a \<in> set ''0123456789abcdefABCDEF''" and "b \<in> set ''0123456789abcdefABCDEF''"
  shows "DigestToHexString (toLatin1 [char_of (hexval a * 16 + hexval b)]) = [hex_lower a, hex_lower b]"
proof -
  let ?v = "hexval a * 16 + hexval b"
  have v: "?v < 256" using hexval_less[of a] hexval_less[of b] by simp
  have "unat (of_nat ?v :: byte) = ?v mod 2 ^ LENGTH(8)" by (rule unat_of_nat)
  then have u: "unat (of_nat ?v :: byte) = ?v" using v by simp
  have d: "?v div 16 = hexval a" using hexval_less[of b] by simp
  have m: "?v mod 16 = hexval b" using hexval_less[of b] by simp
  have "toLatin1 [char_of ?v] = [of_nat ?v]" using v by (simp add: toLatin1_def)
  then show ?thesis
    using u d m assms by (simp add: DigestToHexString_def hexdigit_hexval)
qed

lemma ToBinary_decodes:
  "\<forall>c \<in> set r. c \<in> set ''0123456789abcdefABCDEF'' \<Longrightarrow> even (length r) \<Longrightarrow>
     DigestToHexString (toLatin1 (ToBinary r)) = map hex_lower r"
proof (induction r rule: ToBinary.induct)
  case (1 a b r)
  have ab: "a \<in> set ''0123456789abcdefABCDEF''" "b \<in> set ''0123456789abcdefABCDEF''"
    using "1.prems"(1) by simp_all
  have "DigestToHexString (toLatin1 (ToBinary (a # b # r))) =
        DigestToHexString (toLatin1 [char_of (hexval a * 16 + hexval b)])
          @ DigestToHexString (toLatin1 (ToBinary r))"
    by (simp add: DigestToHexString_def toLatin1_def)
  then show ?case using hex_pair[OF ab] "1.IH" "1.prems" by simp
qed (simp_all add: DigestToHexString_def toLatin1_def)

lemma length_ToBinary: "length (ToBinary r) = length r div 2"
  by (induction r rule: ToBinary.induct) simp_all

lemma length_DigestToHexString: "length (DigestToHexString d) = 2 * length d"
  by (induction d) (simp_all add: DigestToHexString_def)

lemma strlen_no_zero: "0 \<notin> set bs \<Longrightarrow> take (strlen bs) bs = bs"
  by (induction bs) (simp_all add: strlen_def)

text \<open>
  The \<open>LoginRequested\<close> branch of \<open>doLogin\<close> on a reply that passes the four checks. Given a
  reply marked done whose single attribute \<open>ret\<close> has 32 hex characters, a digest function
  that returns 16 bytes and a user name whose word \<open>writeLength\<close> accepts, \<open>doLogin\<close> returns
  after writing four words, \<open>/login\<close>, \<open>=name=<username>\<close>, \<open>=response=<response>\<close> and the
  empty word, and leaves the login state \<open>UserPassSended\<close>. The response is \<open>00\<close> followed by
  the 32 hex characters of the digest of: one zero byte, the first \<open>strlen\<close> bytes of the
  Latin-1 password, and the 16 bytes that \<open>ret\<close> decodes to. For a password without a zero
  character these are all its bytes.
\<close>

lemma doLogin_challenge_general:
  assumes "m_loginState s = LoginRequested"
      and "getResultType (incomingSentence s) = Done"
      and "count_attr (attributes (incomingSentence s)) = 1"
      and "attribute (attributes (incomingSentence s)) ''ret'' = ret"
      and "length ret = 32"
      and "\<forall>c \<in> set ret. c \<in> set ''0123456789abcdefABCDEF''"
      and "\<forall>m. length (md5_digest e m) = 16"
      and "length (m_Username s) + 6 < 0x10000000"
  shows "\<exists>challenge response w1 w2 w3 w4 s'.
           challenge = toLatin1 (ToBinary ret) \<and> length challenge = 16
           \<and> DigestToHexString challenge = map hex_lower ret
           \<and> response =
               ''00'' @ DigestToHexString (md5_digest e
                  (0 # take (strlen (toLatin1 (m_Password s))) (toLatin1 (m_Password s)) @ challenge))
           \<and> (0 \<notin> set (toLatin1 (m_Password s)) \<longrightarrow>
                response = ''00'' @ DigestToHexString (md5_digest e
                  (0 # toLatin1 (m_Password s) @ challenge)))
           \<and> length response = 34
           \<and> wire_word (Q_BYTE_ORDER e) ''/login'' = Some w1
           \<and> wire_word (Q_BYTE_ORDER e) (''=name='' @ m_Username s) = Some w2
           \<and> wire_word (Q_BYTE_ORDER e) (''=response='' @ response) = Some w3
           \<and> wire_word (Q_BYTE_ORDER e) [] = Some w4
           \<and> doLogin e s = Inr ((), s')
           \<and> sock_out s' = sock_out s @ w1 @ w2 @ w3 @ w4
           \<and> m_loginState s' = UserPassSended"
proof -
  let ?bo = "Q_BYTE_ORDER e"
  let ?challenge = "toLatin1 (ToBinary ret)"
  let ?response = "''00'' @ DigestToHexString (md5_digest e
        (0 # take (strlen (toLatin1 (m_Password s))) (toLatin1 (m_Password s)) @ ?challenge))"
  have hx: "DigestToHexString ?challenge = map hex_lower ret"
    using assms(5,6) by (intro ToBinary_decodes) simp_all
  have lc: "length ?challenge = 16"
    using assms(5) by (simp add: toLatin1_def length_ToBinary)
  have lr: "length ?response = 34"
    using assms(7) by (simp add: length_DigestToHexString)
  have nz: "0 \<notin> set (toLatin1 (m_Password s)) \<longrightarrow>
      ?response = ''00'' @ DigestToHexString (md5_digest e
                  (0 # toLatin1 (m_Password s) @ ?challenge))"
    by (simp add: strlen_no_zero)
  obtain w1 where w1: "wire_word ?bo ''/login'' = Some w1"
    using wire_word_Some[of "''/login''" ?bo] by auto
  obtain w2 where w2: "wire_word ?bo (''=name='' @ m_Username s) = Some w2"
    using wire_word_Some[of "''=name='' @ m_Username s" ?bo] assms(8) by auto
  obtain w3 where w3: "wire_word ?bo (''=response='' @ ?response) = Some w3"
    using wire_word_Some[of "''=response='' @ ?response" ?bo] lr by auto
  obtain w4 where w4: "wire_word ?bo [] = Some w4"
    using wire_word_Some[of "[]" ?bo] by auto
  have w3': "wire_word ?bo (''=response=00'' @ DigestToHexString (md5_digest e
        (0 # take (strlen (toLatin1 (m_Password s))) (toLatin1 (m_Password s)) @ ?challenge))) = Some w3"
    using w3 by simp
  have run: "doLogin e s =
      Inr ((), setLoginState UserPassSended
        (s\<lparr>sock_out := sock_out s @ w1 @ w2 @ w3 @ w4,
           incomingSentence := clear e (incomingSentence s), incomingWordSize := - 1\<rparr>))"
    using assms(1-5) w1 w2 w3' w4 lc
    by (simp add: doLogin_def seq_sendWord Let_def QMD5_init_def QMD5_append_def QMD5_finish_def)
  have st: "sock_out (setLoginState UserPassSended
        (s\<lparr>sock_out := sock_out s @ w1 @ w2 @ w3 @ w4,
           incomingSentence := clear e (incomingSentence s), incomingWordSize := - 1\<rparr>)) =
      sock_out s @ w1 @ w2 @ w3 @ w4"
    "m_loginState (setLoginState UserPassSended
        (s\<lparr>sock_out := sock_out s @ w1 @ w2 @ w3 @ w4,
           incomingSentence := clear e (incomingSentence s), incomingWordSize := - 1\<rparr>)) =
      UserPassSended"
    by (simp_all add: setLoginState_def emit_def)
  show ?thesis
    apply (rule exI[of _ ?challenge], rule exI[of _ ?response])
    apply (rule exI[of _ w1], rule exI[of _ w2], rule exI[of _ w3], rule exI[of _ w4])
    apply (rule exI)
    apply (intro conjI)
    apply (rule refl, rule lc, rule hx, rule refl, rule nz, rule lr, rule w1, rule w2, rule w3,
           rule w4, rule run, rule st(1), rule st(2))
    done
qed

text \<open>
  The digests of the examples, evaluated from the definition of MD5, and their hex
  forms.
\<close>

lemma length_md5: "length (md5 m) = 16"
  by (simp add: md5_def word_le_def Let_def split: prod.splits)

lemma md5_password_secret:
  "md5 [0, 115, 101, 99, 114, 101, 116, 0, 17, 34, 51, 68, 85, 102, 119, 136, 153, 170, 187, 204, 221, 238, 255]
     = [193, 117, 17, 210, 36, 165, 233, 49, 112, 99, 40, 7, 211, 99, 136, 170]"
  by code_simp

lemma hex_password_secret:
  "DigestToHexString [193, 117, 17, 210, 36, 165, 233, 49, 112, 99, 40, 7, 211, 99, 136, 170] 
    = ''c17511d224a5e93170632807d36388aa''"
  by (simp add: DigestToHexString_def hexdigit_def)

lemma md5_password_a:
  "md5 [0, 97, 0, 17, 34, 51, 68, 85, 102, 119, 136, 153, 170, 187, 204, 221, 238, 255]
     = [29, 173, 57, 51, 199, 167, 144, 140, 206, 88, 73, 195, 33, 52, 210, 224]"
  by code_simp

lemma md5_password_a0b:
  "md5 [0, 97, 0, 98, 0, 17, 34, 51, 68, 85, 102, 119, 136, 153, 170, 187, 204, 221, 238, 255]
     = [198, 55, 92, 170, 187, 197, 234, 40, 128, 22, 174, 91, 81, 87, 95, 216]"
  by code_simp

lemma hex_password_a:
  "DigestToHexString [29, 173, 57, 51, 199, 167, 144, 140, 206, 88, 73, 195, 33, 52, 210, 224]
    = ''1dad3933c7a7908cce5849c32134d2e0''"
  by (simp add: DigestToHexString_def hexdigit_def)

lemma hex_password_a0b:
  "DigestToHexString [198, 55, 92, 170, 187, 197, 234, 40, 128, 22, 174, 91, 81, 87, 95, 216]
    = ''c6375caabbc5ea288016ae5b51575fd8''"
  by (simp add: DigestToHexString_def hexdigit_def)

lemma hex_challenge:
  "toLatin1 (ToBinary ''00112233445566778899aabbccddeeff'') =
     [0, 17, 34, 51, 68, 85, 102, 119, 136, 153, 170, 187, 204, 221, 238, 255]"
  by (simp add: hexval_def toLatin1_def)

text \<open>
  Claim C4 asks that the response be \<open>00\<close> followed by the hex digits of the MD5 digest of
  one zero byte, the bytes of the password and the 16 bytes of the challenge. User
  \<open>admin\<close> answers the challenge \<open>00112233445566778899aabbccddeeff\<close>. With the password
  \<open>secret\<close>, \<open>doLogin\<close> sends the sentence the claim describes and moves to
  \<open>UserPassSended\<close>. With the password \<open>a\<close>, a zero character, \<open>b\<close>, the command, the name
  and the transition are as the claim says, but the response is the one of the password
  \<open>a\<close>: \<open>doLogin\<close> measures the Latin-1 password with \<open>strlen\<close>, which stops at the zero
  byte, so the bytes \<open>00 62\<close> never reach the digest that, by the comment in the code, is
  the ``md5 of the password + challenge concatenation''.
\<close>

theorem doLogin_password_strlen:
  "doLogin env_example (awaiting_challenge ''admin'' ''secret'' ''00112233445566778899aabbccddeeff'') =
     Inr ((), (awaiting_challenge ''admin'' ''secret'' ''00112233445566778899aabbccddeeff'')
       \<lparr>sock_out := 6 # toLatin1 ''/login'' @ 11 # toLatin1 ''=name=admin''
           @ 44 # toLatin1 ''=response=00c17511d224a5e93170632807d36388aa'' @ [0],
        incomingSentence := QSentence_empty,
        m_loginState := UserPassSended,
        emitted := [loginStateChanged UserPassSended]\<rparr>)
   \<and> ''00'' @ DigestToHexString (md5 (0 # toLatin1 ''secret''
          @ toLatin1 (ToBinary ''00112233445566778899aabbccddeeff''))) =
       ''00c17511d224a5e93170632807d36388aa''
   \<and> doLogin env_example (awaiting_challenge ''admin'' [CHR ''a'', CHR 0x00, CHR ''b'']
         ''00112233445566778899aabbccddeeff'') =
     Inr ((), (awaiting_challenge ''admin'' [CHR ''a'', CHR 0x00, CHR ''b'']
         ''00112233445566778899aabbccddeeff'')
       \<lparr>sock_out := 6 # toLatin1 ''/login'' @ 11 # toLatin1 ''=name=admin''
           @ 44 # toLatin1 ''=response=001dad3933c7a7908cce5849c32134d2e0'' @ [0],
        incomingSentence := QSentence_empty,
        m_loginState := UserPassSended,
        emitted := [loginStateChanged UserPassSended]\<rparr>)
   \<and> ''00'' @ DigestToHexString (md5 (0 # toLatin1 ''a''
          @ toLatin1 (ToBinary ''00112233445566778899aabbccddeeff''))) =
       ''001dad3933c7a7908cce5849c32134d2e0''
   \<and> ''00'' @ DigestToHexString (md5 (0 # toLatin1 [CHR ''a'', CHR 0x00, CHR ''b'']
          @ toLatin1 (ToBinary ''00112233445566778899aabbccddeeff''))) =
       ''00c6375caabbc5ea288016ae5b51575fd8''"
  by (simp add: login_example_eval md5_password_secret hex_password_secret
      md5_password_a md5_password_a0b hex_password_a hex_password_a0b)

section \<open>Tags\<close>

subsection \<open>Decimal numerals\<close>

lemma dec_value_snoc: "dec_value (ds @ [c]) = 10 * dec_value ds + (of_char c - 48)"
  by (simp add: dec_value_def)

lemma of_char_digit_char: "of_char (digit_char n) = (48 + n mod 10 :: nat)"
proof -
  have "48 + n mod 10 < (256::nat)" by (rule less_trans[of _ 58]) simp_all
  then show ?thesis by (simp add: digit_char_def)
qed

lemma digit_char_numerals:
  "digit_char 0 = CHR ''0''" "digit_char (Suc 0) = CHR ''1''" "digit_char 2 = CHR ''2''"
  "digit_char 3 = CHR ''3''" "digit_char 4 = CHR ''4''" "digit_char 5 = CHR ''5''"
  "digit_char 6 = CHR ''6''" "digit_char 7 = CHR ''7''" "digit_char 8 = CHR ''8''"
  "digit_char 9 = CHR ''9''"
  by (rule of_char_eqI[where ?'a=nat], simp add: of_char_digit_char)+

lemma dec_value_dec_nat: "dec_value (dec_nat n) = n"
proof (induction n rule: dec_nat.induct)
  case (1 n)
  show ?case
  proof (cases "n < 10")
    case True
    then show ?thesis
      using dec_value_snoc[of "[]" "digit_char n"]
      by (simp add: dec_nat.simps[of n] of_char_digit_char dec_value_def)
  next
    case False
    then show ?thesis
      using "1.IH" by (simp add: dec_nat.simps[of n] dec_value_snoc of_char_digit_char)
  qed
qed

lemma dec_nat_inj: "dec_nat m = dec_nat n \<Longrightarrow> m = n"
  by (metis dec_value_dec_nat)

lemma dec_nat_digits: "c \<in> set (dec_nat n) \<Longrightarrow> (48::nat) \<le> of_char c"
proof (induction n rule: dec_nat.induct)
  case (1 n)
  show ?case
  proof (cases "n < 10")
    case True
    then show ?thesis using "1.prems" by (simp add: dec_nat.simps[of n] of_char_digit_char)
  next
    case False
    then show ?thesis
      using "1.IH" "1.prems" by (auto simp add: dec_nat.simps[of n] of_char_digit_char)
  qed
qed

lemma dec_nat_no_minus: "dec_nat n \<noteq> CHR ''-'' # ds"
proof
  assume "dec_nat n = CHR ''-'' # ds"
  then have "CHR ''-'' \<in> set (dec_nat n)" by simp
  then have "(48::nat) \<le> of_char CHR ''-''" by (rule dec_nat_digits)
  then show False by simp
qed

lemma arg_int_inj: "arg_int i = arg_int j \<Longrightarrow> i = j"
proof -
  assume eq: "arg_int i = arg_int j"
  have "sint i = sint j"
  proof (cases "sint i < 0"; cases "sint j < 0")
    assume "sint i < 0" "sint j < 0"
    then have "nat (- sint i) = nat (- sint j)"
      using eq by (simp add: arg_int_def dec_nat_inj)
    then show ?thesis using \<open>sint i < 0\<close> \<open>sint j < 0\<close> by simp
  next
    assume "sint i < 0" "\<not> sint j < 0"
    then show ?thesis using eq dec_nat_no_minus[of "nat (sint j)"] by (simp add: arg_int_def) metis
  next
    assume "\<not> sint i < 0" "sint j < 0"
    then show ?thesis using eq dec_nat_no_minus[of "nat (sint i)"] by (simp add: arg_int_def)
  next
    assume "\<not> sint i < 0" "\<not> sint j < 0"
    then have "nat (sint i) = nat (sint j)"
      using eq by (simp add: arg_int_def dec_nat_inj)
    then show ?thesis using \<open>\<not> sint i < 0\<close> \<open>\<not> sint j < 0\<close> by simp
  qed
  then show ?thesis by (rule signed_word_eqI)
qed

lemma sint_add_small:
  assumes "sint (x::cint) + k < 2 ^ 31" and "0 \<le> k" and "k < 2 ^ 31"
  shows "sint (x + word_of_int k) = sint x + k"
proof -
  have k: "sint (word_of_int k :: cint) = k"
    using assms(2,3) by (simp add: sint_sbintrunc' signed_take_bit_int_eq_self)
  have "sint (x + word_of_int k) = signed_take_bit 31 (sint x + k)"
    by (simp add: sint_word_add k)
  also have "\<dots> = sint x + k"
  proof (rule signed_take_bit_int_eq_self)
    have "- (2 ^ 31) \<le> sint x" using sint_ge[of x] by simp
    then show "- (2 ^ 31) \<le> sint x + k" using assms(2) by linarith
    show "sint x + k < 2 ^ 31" by (rule assms(1))
  qed
  finally show ?thesis .
qed

subsection \<open>The counter\<close>

lemma sendSentence_ID:
  "ID (result_state (sendSentence bo sent addTag s)) = ID s
   \<or> (addTag \<and> tag sent = [] \<and> ID (result_state (sendSentence bo sent addTag s)) = ID s + 1)"
  by (auto simp add: sendSentence_wire result_state_def split: option.splits prod.splits)

lemma sendSentence_explicit_tag_state:
  "tag sent \<noteq> [] \<Longrightarrow>
   result_state (sendSentence bo sent addTag s) =
     s\<lparr>sock_out := sock_out (result_state (sendSentence bo sent addTag s))\<rparr>"
  by (auto simp add: sendSentence_wire result_state_def split: option.splits prod.splits)

lemma sendSentence_value_sock_out:
  "result_value (sendSentence bo sent addTag (s\<lparr>sock_out := x\<rparr>)) =
   result_value (sendSentence bo sent addTag s)"
  by (auto simp add: sendSentence_wire result_value_def split: option.splits prod.splits)

lemma sendSentence_auto_tag:
  "tag sent = [] \<Longrightarrow> sendSentence bo sent True s = Inr (t, s') \<Longrightarrow>
     t = arg_int (ID s + 1) \<and> ID s' = ID s + 1"
  by (auto simp add: sendSentence_wire split: option.splits prod.splits if_splits)

lemma sendSentence_explicit_tag:
  "tag sent \<noteq> [] \<Longrightarrow> sendSentence bo sent True s = Inr (t, s') \<Longrightarrow>
     t = tag sent \<and> (\<exists>pre w. wire_word bo (''.tag='' @ tag sent) = Some w
                          \<and> sock_out s' = pre @ w @ [0])"
  by (auto simp add: sendSentence_wire wire_word_empty split: option.splits prod.splits if_splits)

lemma arg_int_1: "arg_int 1 = ''1''"
  by (simp add: arg_int_def dec_nat.simps digit_char_numerals)

lemma arg_int_2: "arg_int 2 = ''2''"
  by (simp add: arg_int_def dec_nat.simps digit_char_numerals)

lemmas sendSentence_example_eval =
  sendSentence_wire seq_Inr login_sentence_def QSentence_empty_def QBasicAttrib_empty_def
  Comm_init_def wire_word_short wire_word_empty arg_int_1 arg_int_2 result_state_def
  result_value_def

text \<open>
  Claim C10. A send with \<open>addTag = true\<close> of a sentence that carries a tag leaves the
  counter \<open>ID\<close> as it was, whether the send returns or throws, and a send that follows it
  returns what it would have returned without it (the same tag, or the same throw). In
  general the counter changes only when \<open>addTag\<close> is set and the sentence has no tag, and
  then by one.
\<close>

theorem explicit_tag_keeps_counter:
  "(tag sent \<noteq> [] \<longrightarrow>
      ID (result_state (sendSentence bo sent True s)) = ID s
      \<and> result_value (sendSentence bo sent2 True (result_state (sendSentence bo sent True s))) =
          result_value (sendSentence bo sent2 True s))
   \<and> (ID (result_state (sendSentence bo sent addTag s)) \<noteq> ID s \<longrightarrow>
        addTag \<and> tag sent = [] \<and> ID (result_state (sendSentence bo sent addTag s)) = ID s + 1)"
proof (intro conjI impI)
  assume t: "tag sent \<noteq> []"
  obtain x where x: "result_state (sendSentence bo sent True s) = s\<lparr>sock_out := x\<rparr>"
    using sendSentence_explicit_tag_state[OF t] by blast
  show "ID (result_state (sendSentence bo sent True s)) = ID s" using x by simp
  show "result_value (sendSentence bo sent2 True (result_state (sendSentence bo sent True s))) =
          result_value (sendSentence bo sent2 True s)"
    using x sendSentence_value_sock_out by simp
next
  assume "ID (result_state (sendSentence bo sent addTag s)) \<noteq> ID s"
  then show "addTag" "tag sent = []" "ID (result_state (sendSentence bo sent addTag s)) = ID s + 1"
    using sendSentence_ID[of bo sent addTag s] by auto
qed

text \<open>
  From the constructor's state: a send with the tag \<open>t7\<close> leaves the counter at 0, and
  the next automatic tag is 1 with or without it.
\<close>

theorem explicit_tag_keeps_counter_witness:
  "tag (login_sentence\<lparr>tag := ''t7''\<rparr>) \<noteq> []
   \<and> ID (result_state (sendSentence Q_LITTLE_ENDIAN (login_sentence\<lparr>tag := ''t7''\<rparr>) True Comm_init)) = 0
   \<and> result_value (sendSentence Q_LITTLE_ENDIAN login_sentence True
        (result_state (sendSentence Q_LITTLE_ENDIAN (login_sentence\<lparr>tag := ''t7''\<rparr>) True Comm_init)))
       = Inr ''1''
   \<and> result_value (sendSentence Q_LITTLE_ENDIAN login_sentence True Comm_init) = Inr ''1''
   \<and> ID (result_state (sendSentence Q_LITTLE_ENDIAN login_sentence True Comm_init)) = 1"
  using explicit_tag_keeps_counter[of "login_sentence\<lparr>tag := ''t7''\<rparr>" Q_LITTLE_ENDIAN
      Comm_init login_sentence True]
    explicit_tag_keeps_counter[of login_sentence Q_LITTLE_ENDIAN Comm_init login_sentence True]
  by (simp add: sendSentence_example_eval)

subsection \<open>Allocation\<close>

text \<open>
  Claim C8, as the code has it. Two consecutive sends with \<open>addTag = true\<close> of sentences
  without a tag, both returning, return the decimal numerals of the counter plus one and
  of the counter plus two, which are always different strings. Read as numbers they are
  the counter's value plus one and plus two, hence strictly increasing, as long as the
  counter is not negative and is below \<open>0x7FFFFFFE\<close> before the first send: the counter is
  an \<open>int\<close>, and the increment of 2147483647 does not give a larger value. The counter
  starts at 0, so the first automatic tag is 1. A send of a sentence that carries a tag
  returns that tag, and the last two words it writes are \<open>.tag=\<close> followed by that tag
  and the empty word.
\<close>

theorem tag_allocation:
  "(tag sent1 = [] \<and> tag sent2 = []
      \<and> sendSentence bo sent1 True s = Inr (t1, s1)
      \<and> sendSentence bo sent2 True s1 = Inr (t2, s2) \<longrightarrow>
        t1 = arg_int (ID s + 1) \<and> t2 = arg_int (ID s + 2) \<and> t1 \<noteq> t2
        \<and> (0 \<le>s ID s \<and> ID s <s 0x7FFFFFFE \<longrightarrow>
             int (dec_value t1) = sint (ID s) + 1 \<and> int (dec_value t2) = sint (ID s) + 2))
   \<and> ID Comm_init = 0
   \<and> (tag sent1 = [] \<and> sendSentence bo sent1 True s = Inr (t1, s1) \<and> ID s = 0 \<longrightarrow> t1 = ''1'')
   \<and> (tag sent3 \<noteq> [] \<and> sendSentence bo sent3 True s = Inr (t3, s3) \<longrightarrow>
        t3 = tag sent3
        \<and> (\<exists>pre w. wire_word bo (''.tag='' @ tag sent3) = Some w \<and> sock_out s3 = pre @ w @ [0]))"
proof (intro conjI impI)
  assume a: "tag sent1 = [] \<and> tag sent2 = []
      \<and> sendSentence bo sent1 True s = Inr (t1, s1)
      \<and> sendSentence bo sent2 True s1 = Inr (t2, s2)"
  have r1: "t1 = arg_int (ID s + 1) \<and> ID s1 = ID s + 1"
    using a sendSentence_auto_tag[of sent1 bo s t1 s1] by simp
  have r2: "t2 = arg_int (ID s1 + 1) \<and> ID s2 = ID s1 + 1"
    using a sendSentence_auto_tag[of sent2 bo s1 t2 s2] by simp
  show t1: "t1 = arg_int (ID s + 1)" using r1 by simp
  show t2: "t2 = arg_int (ID s + 2)" using r1 r2 by (simp add: add.assoc)
  have "ID s + 1 \<noteq> ID s + 2" by simp
  then show "t1 \<noteq> t2" using t1 t2 arg_int_inj by blast
  assume b: "0 \<le>s ID s \<and> ID s <s 0x7FFFFFFE"
  then have lo: "0 \<le> sint (ID s)" and hi: "sint (ID s) < 0x7FFFFFFE"
    by (simp_all add: word_sle_eq word_sless_alt)
  have i1: "sint (ID s + 1) = sint (ID s) + 1"
    using sint_add_small[of "ID s" 1] hi by simp
  have i2: "sint (ID s + 2) = sint (ID s) + 2"
    using sint_add_small[of "ID s" 2] hi by simp
  show "int (dec_value t1) = sint (ID s) + 1"
    using t1 i1 lo by (simp add: arg_int_def dec_value_dec_nat)
  show "int (dec_value t2) = sint (ID s) + 2"
    using t2 i2 lo by (simp add: arg_int_def dec_value_dec_nat)
next
  show "ID Comm_init = 0" by (simp add: Comm_init_def)
next
  assume a: "tag sent1 = [] \<and> sendSentence bo sent1 True s = Inr (t1, s1) \<and> ID s = 0"
  then have "t1 = arg_int 1" using sendSentence_auto_tag[of sent1 bo s t1 s1] by simp
  then show "t1 = ''1''" by (simp add: arg_int_def dec_nat.simps digit_char_numerals)
next
  assume a: "tag sent3 \<noteq> [] \<and> sendSentence bo sent3 True s = Inr (t3, s3)"
  then show "t3 = tag sent3"
    and "\<exists>pre w. wire_word bo (''.tag='' @ tag sent3) = Some w \<and> sock_out s3 = pre @ w @ [0]"
    using sendSentence_explicit_tag[of sent3 bo s t3 s3] by simp_all
qed

text \<open>The first two automatic tags of a run, and a send with the tag \<open>t7\<close>.\<close>

theorem tag_allocation_witness:
  "tag login_sentence = []
   \<and> sendSentence Q_LITTLE_ENDIAN login_sentence True Comm_init =
       Inr (''1'', Comm_init\<lparr>sock_out := 6 # toLatin1 ''/login'' @ 6 # toLatin1 ''.tag=1'' @ [0],
                             ID := 1\<rparr>)
   \<and> sendSentence Q_LITTLE_ENDIAN login_sentence True
        (Comm_init\<lparr>sock_out := 6 # toLatin1 ''/login'' @ 6 # toLatin1 ''.tag=1'' @ [0], ID := 1\<rparr>) =
       Inr (''2'', Comm_init\<lparr>sock_out := 6 # toLatin1 ''/login'' @ 6 # toLatin1 ''.tag=1'' @ [0]
                                  @ 6 # toLatin1 ''/login'' @ 6 # toLatin1 ''.tag=2'' @ [0],
                             ID := 2\<rparr>)
   \<and> 0 \<le>s ID Comm_init \<and> ID Comm_init <s 0x7FFFFFFE
   \<and> ''1'' \<noteq> ''2''
   \<and> int (dec_value ''1'') = 1 \<and> int (dec_value ''2'') = 2
   \<and> sendSentence Q_LITTLE_ENDIAN (login_sentence\<lparr>tag := ''t7''\<rparr>) True Comm_init =
       Inr (''t7'', Comm_init\<lparr>sock_out := 6 # toLatin1 ''/login'' @ 7 # toLatin1 ''.tag=t7'' @ [0]\<rparr>)"
  using tag_allocation[where ?sent1.0=login_sentence and ?sent2.0=login_sentence
      and bo=Q_LITTLE_ENDIAN and s=Comm_init and ?t1.0="''1''" and ?t2.0="''2''"
      and ?s1.0="Comm_init\<lparr>sock_out := 6 # toLatin1 ''/login'' @ 6 # toLatin1 ''.tag=1'' @ [0], ID := 1\<rparr>"
      and ?s2.0="Comm_init\<lparr>sock_out := 6 # toLatin1 ''/login'' @ 6 # toLatin1 ''.tag=1'' @ [0]
                                  @ 6 # toLatin1 ''/login'' @ 6 # toLatin1 ''.tag=2'' @ [0], ID := 2\<rparr>"
      and ?sent3.0="login_sentence\<lparr>tag := ''t7''\<rparr>" and ?t3.0="''t7''"
      and ?s3.0="Comm_init\<lparr>sock_out := 6 # toLatin1 ''/login'' @ 7 # toLatin1 ''.tag=t7'' @ [0]\<rparr>"]
  by (simp add: sendSentence_example_eval dec_value_def word_sle_eq word_sless_alt)

text \<open>
  With the counter at \<open>0x7FFFFFFE\<close> the two tags are 2147483647 and, after the increment
  has wrapped around, -2147483648: they are not increasing.
\<close>

lemma dec_nat_INT_MAX: "dec_nat 2147483647 = ''2147483647''"
  by (simp add: dec_nat.simps digit_char_numerals)

lemma arg_int_INT_MAX: "arg_int 2147483647 = ''2147483647''"
  by (simp add: arg_int_def dec_nat_INT_MAX)
lemma arg_int_INT_MAX_sum: "arg_int (0x7FFFFFFE + 1) = ''2147483647''"
  by (simp add: arg_int_def dec_nat_INT_MAX)
lemma arg_int_INT_MIN_unsigned: "arg_int 2147483648 = ''-2147483648''"
  by (simp add: arg_int_def dec_nat.simps digit_char_numerals)
lemma arg_int_INT_MIN: "arg_int (- 2147483648) = ''-2147483648''"
  by (simp add: arg_int_def dec_nat.simps digit_char_numerals)
lemma arg_int_INT_MIN_sum: "arg_int (0x7FFFFFFE + 1 + 1) = ''-2147483648''"
  by (simp add: arg_int_def dec_nat.simps digit_char_numerals)

theorem tag_allocation_counterexample:
  "result_value (sendSentence Q_LITTLE_ENDIAN login_sentence True (Comm_init\<lparr>ID := 0x7FFFFFFE\<rparr>))
     = Inr ''2147483647''
   \<and> result_value (sendSentence Q_LITTLE_ENDIAN login_sentence True
        (result_state (sendSentence Q_LITTLE_ENDIAN login_sentence True
           (Comm_init\<lparr>ID := 0x7FFFFFFE\<rparr>))))
     = Inr ''-2147483648''"
proof -
  have w1: "wire_word Q_LITTLE_ENDIAN ''/login'' = Some (6 # toLatin1 ''/login'')"
    by (simp add: wire_word_short)
  have w2: "wire_word Q_LITTLE_ENDIAN ''.tag=2147483647'' = Some (15 # toLatin1 ''.tag=2147483647'')"
    by (simp add: wire_word_short)
  have w3: "wire_word Q_LITTLE_ENDIAN ''.tag=-2147483648'' = Some (16 # toLatin1 ''.tag=-2147483648'')"
    by (simp add: wire_word_short)
  show ?thesis
    by (simp add: sendSentence_wire login_sentence_def QSentence_empty_def QBasicAttrib_empty_def
        Comm_init_def result_value_def result_state_def arg_int_INT_MAX arg_int_INT_MAX_sum arg_int_INT_MIN_sum arg_int_INT_MIN_unsigned arg_int_INT_MIN w1 w2 w3 wire_word_empty seq_Inr)
qed

end
